theory Spec2Isabelle
  imports Complex_Main "HOL-Library.Word"
begin

text \<open>
  The mail scanner keeps one IMAP connection per account open on INBOX, hands every new
  mail and, after each connect, every mail since the stored watermark to a classifier, and
  moves the mails the classifier flags to the spam folder of the provider.

  The three TypeScript files are embedded function by function. The server, the
  classifier, the clock, the random generator and the configuration file are inputs: a
  connection is the record of what its methods answer, and every handler takes what the
  host answers while it runs. A method that mutates the watcher returns the new watcher;
  a \<open>throw\<close> is a result \<open>Inl e\<close> or \<open>Some e\<close>; what the program does to the outside
  is appended to a trace of effects. Numbers are real numbers and instants are integers
  (milliseconds since the epoch): \<open>NaN\<close> and invalid dates are not modelled.
\<close>

section \<open>emailAnalyzer.ts: the text sent to the classifier\<close>

text \<open>
  A JavaScript string is a sequence of 16-bit code units. The body of a mail is modelled
  as such a sequence, because \<open>sanitizeText\<close> is defined by two character classes of
  the regular-expression engine that reach beyond ASCII.
\<close>

type_synonym code_unit = "16 word"
type_synonym jsstring = "code_unit list"

definition SPACE :: code_unit where
  "SPACE = 0x20"

text \<open>The class \<open>[\u0000-\u0008\u000B\u000C\u000E-\u001F\u007F]\<close> of the first \<open>replace\<close>.\<close>

definition isControlChar :: "code_unit \<Rightarrow> bool" where
  "isControlChar c \<longleftrightarrow>
     c \<le> 0x08 \<or> c = 0x0B \<or> c = 0x0C \<or> (0x0E \<le> c \<and> c \<le> 0x1F) \<or> c = 0x7F"

text \<open>
  The class \<open>\s\<close> of ECMAScript (white space and line terminators); \<open>trim\<close> strips
  the same set of code units.
\<close>

definition isWhiteSpace :: "code_unit \<Rightarrow> bool" where
  "isWhiteSpace c \<longleftrightarrow>
     c = 0x09 \<or> c = 0x0A \<or> c = 0x0B \<or> c = 0x0C \<or> c = 0x0D \<or> c = 0x20 \<or> c = 0xA0 \<or>
     c = 0x1680 \<or> (0x2000 \<le> c \<and> c \<le> 0x200A) \<or> c = 0x2028 \<or> c = 0x2029 \<or>
     c = 0x202F \<or> c = 0x205F \<or> c = 0x3000 \<or> c = 0xFEFF"


text \<open>\<open>.replace(/[...]/g, " ")\<close>: every control character becomes one space.\<close>

definition replaceControl :: "jsstring \<Rightarrow> jsstring" where
  "replaceControl text = map (\<lambda>c. if isControlChar c then SPACE else c) text"

text \<open>\<open>.replace(/\s+/g, " ")\<close>: every maximal run of white space becomes one space.\<close>

function collapseWhitespace :: "jsstring \<Rightarrow> jsstring" where
  "collapseWhitespace [] = []"
| "collapseWhitespace (c # cs) =
     (if isWhiteSpace c then SPACE # collapseWhitespace (dropWhile isWhiteSpace cs)
      else c # collapseWhitespace cs)"
  by pat_completeness auto
termination
  by (relation "measure length") (auto simp: le_imp_less_Suc length_dropWhile_le)

text \<open>\<open>.trim()\<close>: white space is removed at both ends.\<close>

definition trim :: "jsstring \<Rightarrow> jsstring" where
  "trim s = rev (dropWhile isWhiteSpace (rev (dropWhile isWhiteSpace s)))"

definition sanitizeText :: "jsstring \<Rightarrow> jsstring" where
  "sanitizeText text =
     (if text = [] then []
      else trim (collapseWhitespace (replaceControl text)))"

text \<open>
  \<open>s.substring(0, n)\<close> for an integer \<open>n\<close>: a negative end is taken as 0 and an end
  beyond the length as the length.
\<close>

definition substring0 :: "jsstring \<Rightarrow> int \<Rightarrow> jsstring" where
  "substring0 s n = take (nat n) s"





subsection \<open>isScamEmail\<close>

record emailContent =
  uid :: nat
  subject :: string
  sender :: string
  date :: int
  plain_text :: jsstring
  html :: "string option"

text \<open>
  The fields \<open>from\<close> and \<open>text\<close> of the source are \<open>sender\<close> and \<open>plain_text\<close>
  here; \<open>date\<close> is the instant of the Dayjs value in milliseconds since the epoch;
  \<open>html\<close> is \<open>None\<close> for \<open>false\<close>.
\<close>

record scanResult =
  scam_probability :: real
  reason :: "string option"

text \<open>The three interpolated parts of the prompt; the rest of the prompt is constant.\<close>

record prompt =
  prompt_from :: string
  prompt_subject :: string
  prompt_body :: jsstring

text \<open>
  What happens inside the \<open>try\<close> of \<open>isScamEmail\<close> after the prompt is built: the request
  throws, the answer holds no \<open>{...}\<close>, \<open>JSON.parse\<close> throws, or an object with a
  probability comes back.
\<close>

datatype api_response = RequestThrows | NoJsonMatch | JsonParseThrows | Parsed real

text \<open>
  The analyzer: what the service answers to a prompt, and the integer \<open>bodyMaxChars\<close>
  that the option or \<open>parseInt\<close> of the environment variable gives.
\<close>

record emailAnalyzer =
  anthropic :: "prompt \<Rightarrow> api_response"
  bodyMaxChars :: int

definition promptOf :: "emailAnalyzer \<Rightarrow> emailContent \<Rightarrow> prompt" where
  "promptOf an email =
     (let bodySanitized = sanitizeText (plain_text email)
      in \<lparr>prompt_from = sender email, prompt_subject = subject email,
          prompt_body = substring0 bodySanitized (bodyMaxChars an)\<rparr>)"

definition isScamEmail :: "emailAnalyzer \<Rightarrow> emailContent \<Rightarrow> scanResult" where
  "isScamEmail an email =
     (case anthropic an (promptOf an email) of
        Parsed p \<Rightarrow> \<lparr>scam_probability = p, reason = None\<rparr>
      | _ \<Rightarrow> \<lparr>scam_probability = 0, reason = Some ''Analysis failed''\<rparr>)"

subsection \<open>A concrete mail and analyzer\<close>

definition exampleText :: jsstring where
  "exampleText = [0x09, 0x41, 0x00, 0x20, 0x42, 0x0A]"

definition exampleAnalyzer :: emailAnalyzer where
  "exampleAnalyzer = \<lparr>anthropic = (\<lambda>p. Parsed 92), bodyMaxChars = 2\<rparr>"


section \<open>emailUtils.ts: the mail server seen through one connection\<close>

text \<open>
  An error object; \<open>textCode\<close> is the field \<open>startWatching\<close> inspects.
\<close>

datatype error = Error (textCode: "string option")

text \<open>
  One entry of the mailbox tree of \<open>getBoxes()\<close>, in the order of \<open>Object.entries\<close>.
  An absent \<open>children\<close> or \<open>boxes\<close> member is the empty list: \<open>flattenBoxes\<close> adds
  nothing for either.
\<close>

datatype mailbox = Mailbox (box_name: string) (children: "mailbox list") (boxes: "mailbox list")

text \<open>
  The result of \<open>simpleParser\<close> on the full body of a message; an absent member is
  \<open>None\<close>. \<open>parsed_date\<close> is in milliseconds since the epoch.
\<close>

record parsedMail =
  parsed_date :: "int option"
  parsed_subject :: "string option"
  parsed_from :: "string option"
  parsed_text :: "jsstring option"
  parsed_html :: "string option"

text \<open>
  A message as \<open>connection.search\<close> returns it. \<open>allPart\<close> is \<open>None\<close> when no part has
  \<open>which === ""\<close>, \<open>Some (Inl e)\<close> when parsing that part throws \<open>e\<close>, and the parsed
  mail otherwise. \<open>clock\<close> is what \<open>new Date()\<close> reads while the message is handled.
\<close>

record rawMessage =
  attr_uid :: nat
  allPart :: "(error + parsedMail) option"
  clock :: int

datatype searchCriteria = SeqRange int int | Since int

text \<open>
  The connection object: what each of its methods answers. \<open>openBox\<close> resolves with
  \<open>messages.total || 0\<close> of INBOX or rejects; \<open>Since lb\<close> stands for the criterion
  \<open>["ALL", ["SINCE", formatImapDate(lb)]]\<close>, the day of the instant \<open>lb\<close>.
\<close>

record imapConnection =
  openBox :: "error + nat"
  search :: "searchCriteria \<Rightarrow> error + rawMessage list"
  getBoxes :: "error + mailbox list"
  addBox :: "string \<Rightarrow> error option"
  moveMessage :: "nat \<Rightarrow> string \<Rightarrow> error option"
  imapState :: string
  endThrows :: bool

text \<open>Console output, one constructor for each message of the source.\<close>

datatype logMessage =
    AlreadyWatching | WatcherActive | InvalidCredentials | FailedToStart error
  | Connecting | ConnectedInbox
  | InitialCount nat | BackfillLowerBound int | BackfillError error
  | NewEmailsReceived nat | NewEmailsError error
  | ImapErrorEvent | ConnectionClosed bool | CleanupError | KeepaliveFailed error
  | MaxAttemptsReached | ReconnectIn int nat | Reconnected | ReconnectFailed error
  | Analyzing string | ScamDetected real string | Legitimate string
  | SearchingSince int | FoundMessages nat | SkippingOlder int string | BackfillMessageError error
  | PersistFailed error
  | SearchingForEmails | ParseFailed error
  | Moved nat string | MoveFailed nat error

text \<open>One stored account of the configuration file; \<open>NullEntry\<close> is a \<open>null\<close> element.\<close>

datatype accountEntry =
    NullEntry
  | Entry (acc_user: "string option") (acc_label: "string option")
      (acc_emailsAnalyzedUntil: "int option")

text \<open>
  What the program does to the world outside, in the order it does it: console output,
  calls of the connection, of the classifier, of the timers and of the file system.
\<close>

datatype effect =
    Log logMessage
  | ImapConnect | RegisterHandlers | RemoveAllListeners | EndConnection
  | OpenBox | Search searchCriteria | GetBoxes | AddBox string | MoveMessage nat string
  | IsScamEmail emailContent
  | SetTimeout real | ClearTimeout | SetInterval | ClearInterval
  | ReadConfig | WriteConfig "accountEntry list"

subsection \<open>moveToSpamFolder\<close>

fun flattenBoxes :: "mailbox list \<Rightarrow> string \<Rightarrow> string list"
  and flattenNode :: "mailbox \<Rightarrow> string \<Rightarrow> string list" where
  "flattenBoxes [] prefix = []"
| "flattenBoxes (node # rest) prefix = flattenNode node prefix @ flattenBoxes rest prefix"
| "flattenNode (Mailbox name ch bx) prefix =
     (let full = (if prefix \<noteq> [] then prefix @ ''/'' @ name else name)
      in full # flattenBoxes ch full @ flattenBoxes bx full)"

text \<open>\<open>toLowerCase\<close> on the ASCII letters; folder names are taken to be ASCII.\<close>

definition lowerChar :: "char \<Rightarrow> char" where
  "lowerChar c =
     (case map_of (zip ''ABCDEFGHIJKLMNOPQRSTUVWXYZ'' ''abcdefghijklmnopqrstuvwxyz'') c of
        Some l \<Rightarrow> l
      | None \<Rightarrow> c)"

definition toLowerCase :: "string \<Rightarrow> string" where
  "toLowerCase s = map lowerChar s"

definition endsWith :: "string \<Rightarrow> string \<Rightarrow> bool" where
  "endsWith s suffix =
     (length suffix \<le> length s \<and> drop (length s - length suffix) s = suffix)"

text \<open>
  \<open>new Map(allBoxes.map((n) => [n.toLowerCase(), n]))\<close>: of two names with the same
  lower-case form the later one stays.
\<close>

definition lowerToOriginal :: "string list \<Rightarrow> string \<Rightarrow> string option" where
  "lowerToOriginal allBoxes = map_of (rev (map (\<lambda>n. (toLowerCase n, n)) allBoxes))"

definition candidates :: "string list" where
  "candidates = [''spam'', ''junk'', ''junk e-mail'', ''bulk'', ''[gmail]/spam'']"

definition exactMatch :: "string list \<Rightarrow> string \<Rightarrow> string option" where
  "exactMatch allBoxes cand =
     (case lowerToOriginal allBoxes (toLowerCase cand) of
        Some exact \<Rightarrow> if exact \<noteq> [] then Some exact else None
      | None \<Rightarrow> None)"

definition trailingMatch :: "string list \<Rightarrow> string \<Rightarrow> string option" where
  "trailingMatch allBoxes cand =
     find (\<lambda>b. endsWith (toLowerCase b) (''/'' @ toLowerCase cand)) allBoxes"

text \<open>The loop \<open>for (const cand of candidates)\<close> with its two \<open>break\<close>s.\<close>

fun findTarget :: "string list \<Rightarrow> string list \<Rightarrow> string option" where
  "findTarget [] allBoxes = None"
| "findTarget (cand # rest) allBoxes =
     (case exactMatch allBoxes cand of
        Some exact \<Rightarrow> Some exact
      | None \<Rightarrow>
          (case trailingMatch allBoxes cand of
             Some found \<Rightarrow> Some found
           | None \<Rightarrow> findTarget rest allBoxes))"

text \<open>
  The effects of the call and the error it rethrows, if any. A failure of \<open>addBox\<close> is
  swallowed by \<open>.catch(() => void 0)\<close>.
\<close>

definition moveToSpamFolder :: "imapConnection \<Rightarrow> nat \<Rightarrow> effect list \<times> error option" where
  "moveToSpamFolder connection uid' =
     (case getBoxes connection of
        Inl e \<Rightarrow> ([GetBoxes, Log (MoveFailed uid' e)], Some e)
      | Inr tree \<Rightarrow>
          (let allBoxes = flattenBoxes tree [];
               found = findTarget candidates allBoxes;
               created = (case found of None \<Rightarrow> [AddBox ''Spam''] | Some _ \<Rightarrow> []);
               target = (case found of None \<Rightarrow> ''Spam'' | Some t \<Rightarrow> t)
           in case moveMessage connection uid' target of
                Some e \<Rightarrow>
                  ([GetBoxes] @ created @ [MoveMessage uid' target, Log (MoveFailed uid' e)],
                   Some e)
              | None \<Rightarrow>
                  ([GetBoxes] @ created @ [MoveMessage uid' target, Log (Moved uid' target)],
                   None)))"

text \<open>
  The resolver as the specification words it: an exact match against the whole priority
  list first, a match of the trailing segment only when no candidate matches exactly.
\<close>

definition findTarget_spec :: "string list \<Rightarrow> string list \<Rightarrow> string option" where
  "findTarget_spec cands allBoxes =
     (case List.map_filter (exactMatch allBoxes) cands of
        exact # _ \<Rightarrow> Some exact
      | [] \<Rightarrow>
          (case List.map_filter (trailingMatch allBoxes) cands of
             found # _ \<Rightarrow> Some found
           | [] \<Rightarrow> None))"

subsection \<open>getTotalMessages and fetchEmailsBatch\<close>

definition getTotalMessages :: "imapConnection \<Rightarrow> effect list \<times> (error + nat)" where
  "getTotalMessages connection = ([OpenBox], openBox connection)"

text \<open>\<open>a || b\<close> for a string that may be absent: the empty string is falsy too.\<close>

definition orElse :: "'a list option \<Rightarrow> 'a list \<Rightarrow> 'a list" where
  "orElse v d = (case v of Some s \<Rightarrow> if s \<noteq> [] then s else d | None \<Rightarrow> d)"

definition emailDate :: "rawMessage \<Rightarrow> parsedMail \<Rightarrow> int" where
  "emailDate message parsed =
     (case parsed_date parsed of Some d \<Rightarrow> d | None \<Rightarrow> clock message)"

definition toEmailContent :: "rawMessage \<Rightarrow> parsedMail \<Rightarrow> emailContent" where
  "toEmailContent message parsed =
     \<lparr>uid = attr_uid message,
      subject = orElse (parsed_subject parsed) ''(No subject)'',
      sender = orElse (parsed_from parsed) ''Unknown sender'',
      date = emailDate message parsed,
      plain_text = orElse (parsed_text parsed) [],
      html = (case parsed_html parsed of
                Some h \<Rightarrow> if h \<noteq> [] then Some h else None
              | None \<Rightarrow> None)\<rparr>"

text \<open>The loop of \<open>fetchEmailsBatch\<close>: the mails pushed and the effects, message by message.\<close>

fun parseBatch :: "rawMessage list \<Rightarrow> effect list \<times> emailContent list" where
  "parseBatch [] = ([], [])"
| "parseBatch (message # rest) =
     (let (effs, emails) = parseBatch rest
      in case allPart message of
           None \<Rightarrow> (effs, emails)
         | Some (Inl e) \<Rightarrow> (Log (ParseFailed e) # effs, emails)
         | Some (Inr parsed) \<Rightarrow> (effs, toEmailContent message parsed # emails))"

definition fetchEmailsBatch ::
  "imapConnection \<Rightarrow> int \<Rightarrow> int \<Rightarrow> effect list \<times> (error + emailContent list)" where
  "fetchEmailsBatch connection startSeq endSeq =
     (case openBox connection of
        Inl e \<Rightarrow> ([OpenBox], Inl e)
      | Inr _ \<Rightarrow>
          (case search connection (SeqRange startSeq endSeq) of
             Inl e \<Rightarrow>
               ([OpenBox, Log SearchingForEmails, Search (SeqRange startSeq endSeq)], Inl e)
           | Inr messages \<Rightarrow>
               (let (effs, emails) = parseBatch messages
                in ([OpenBox, Log SearchingForEmails, Search (SeqRange startSeq endSeq)] @ effs,
                    Inr emails))))"

section \<open>emailWatcher.ts: the watcher of one account\<close>

definition AUTHORIZATION_FAILED_KEY :: string where
  "AUTHORIZATION_FAILED_KEY = ''AUTHENTICATIONFAILED''"

definition maxReconnectAttempts :: nat where
  "maxReconnectAttempts = 5"

definition initialReconnectDelay :: real where
  "initialReconnectDelay = 1000"

text \<open>
  The fields of \<open>EmailWatcher\<close>. A timer handle is \<open>True\<close> when it is not \<open>null\<close>.
  The field \<open>emailAnalyzer\<close> of the source is \<open>analyzer\<close> here.
  Two fields are not in the source: \<open>timerArmed\<close> says that a reconnect timeout is waiting
  in the timer queue of the host (the handle \<open>reconnectTimer\<close> stays set after the
  timeout has fired), and \<open>trace\<close> collects the effects in the order they happen.
\<close>

record watcher =
  connection :: "imapConnection option"
  isWatching :: bool
  isReconnecting :: bool
  reconnectAttempts :: nat
  reconnectTimer :: bool
  keepAliveTimer :: bool
  analyzer :: emailAnalyzer
  scamThreshold :: real
  label :: "string option"
  configPath :: "string option"
  accountUser :: "string option"
  emailsAnalyzedUntil :: "int option"
  isBackfilling :: bool
  timerArmed :: bool
  trace :: "effect list"

text \<open>
  The options of the constructor. \<open>opt_scamThreshold\<close> is the number that
  \<open>parseFloat(String(options?.scamThreshold ?? process.env.SCAM_THRESHOLD ?? "80"))\<close>
  reads when an option or the environment gives one.
\<close>

record watcherOptions =
  opt_label :: "string option"
  opt_scamThreshold :: "real option"
  opt_analyzer :: emailAnalyzer
  opt_configPath :: "string option"
  opt_accountUser :: "string option"
  opt_emailsAnalyzedUntil :: "int option"

definition newWatcher :: "watcherOptions \<Rightarrow> watcher" where
  "newWatcher options =
     \<lparr>connection = None, isWatching = False, isReconnecting = False, reconnectAttempts = 0,
      reconnectTimer = False, keepAliveTimer = False,
      analyzer = opt_analyzer options,
      scamThreshold = (case opt_scamThreshold options of Some t \<Rightarrow> t | None \<Rightarrow> 80),
      label = opt_label options,
      configPath = opt_configPath options,
      accountUser = opt_accountUser options,
      emailsAnalyzedUntil = opt_emailsAnalyzedUntil options,
      isBackfilling = False, timerArmed = False, trace = []\<rparr>"

text \<open>
  What the host answers while one handler runs: the sample of \<open>Math.random()\<close>, the
  instant \<open>dayjs()\<close> reads, the outcome of reading and parsing the configuration file, and
  the error \<open>writeFileSync\<close> throws, if it throws.
\<close>

datatype fileContent = ReadThrows error | ParseThrows error | NotArray | Accounts "accountEntry list"

record environment =
  random :: real
  dayjsNow :: int
  configFile :: fileContent
  writeThrows :: "error option"

definition emit :: "effect list \<Rightarrow> watcher \<Rightarrow> watcher" where
  "emit es w = w\<lparr>trace := trace w @ es\<rparr>"

subsection \<open>Connection, keepalive and cleanup\<close>

definition stopKeepAlive :: "watcher \<Rightarrow> watcher" where
  "stopKeepAlive w =
     (if keepAliveTimer w then emit [ClearInterval] (w\<lparr>keepAliveTimer := False\<rparr>) else w)"

definition startKeepAlive :: "watcher \<Rightarrow> watcher" where
  "startKeepAlive w =
     (let w1 = stopKeepAlive w
      in case connection w1 of
           None \<Rightarrow> w1
         | Some _ \<Rightarrow> emit [SetInterval] (w1\<lparr>keepAliveTimer := True\<rparr>))"

definition cleanupConnection :: "watcher \<Rightarrow> watcher" where
  "cleanupConnection w =
     stopKeepAlive
       (case connection w of
          None \<Rightarrow> w
        | Some c \<Rightarrow>
            (emit (RemoveAllListeners #
                   (if imapState c \<noteq> ''disconnected''
                    then (if endThrows c then [EndConnection, Log CleanupError]
                          else [EndConnection])
                    else [])) w)\<lparr>connection := None\<rparr>)"

text \<open>
  \<open>connect()\<close>, given what \<open>imaps.connect\<close> answers. The result is the error it throws,
  if any. The handlers are registered before INBOX is opened, so a connection whose
  \<open>openBox\<close> rejects stays in the field.
\<close>

definition connect :: "error + imapConnection \<Rightarrow> watcher \<Rightarrow> error option \<times> watcher" where
  "connect answer w =
     (let w1 = emit [Log Connecting, ImapConnect] w
      in case answer of
           Inl e \<Rightarrow> (Some e, w1)
         | Inr c \<Rightarrow>
             (let w2 = emit [RegisterHandlers, OpenBox] (w1\<lparr>connection := Some c\<rparr>)
              in case openBox c of
                   Inl e \<Rightarrow> (Some e, w2)
                 | Inr _ \<Rightarrow>
                     (None,
                      (startKeepAlive (emit [Log ConnectedInbox] w2))\<lparr>reconnectAttempts := 0\<rparr>)))"

subsection \<open>Reconnection\<close>

definition reconnectDelay :: "nat \<Rightarrow> real \<Rightarrow> real" where
  "reconnectDelay attempts r =
     min (initialReconnectDelay * 2 ^ (attempts - 1) + r * 1000) 30000"

text \<open>\<open>scheduleReconnection()\<close> up to the call of \<open>setTimeout\<close>; \<open>r\<close> is \<open>Math.random()\<close>.\<close>

definition scheduleReconnection :: "real \<Rightarrow> watcher \<Rightarrow> watcher" where
  "scheduleReconnection r w =
     (if isReconnecting w \<or> reconnectAttempts w \<ge> maxReconnectAttempts
      then (if reconnectAttempts w \<ge> maxReconnectAttempts
            then emit [Log MaxAttemptsReached] w else w)
      else
        (let w1 = w\<lparr>isReconnecting := True, reconnectAttempts := reconnectAttempts w + 1\<rparr>;
             delay = reconnectDelay (reconnectAttempts w1) r
         in (emit [Log (ReconnectIn \<lfloor>delay / 1000 + 1 / 2\<rfloor> (reconnectAttempts w1)),
                   SetTimeout delay] w1)
            \<lparr>reconnectTimer := True, timerArmed := True\<rparr>))"

text \<open>The callback of that timeout; it runs only when a timeout is waiting.\<close>

definition onReconnectTimer ::
  "environment \<Rightarrow> error + imapConnection \<Rightarrow> watcher \<Rightarrow> watcher" where
  "onReconnectTimer env answer w =
     (if \<not> timerArmed w then w
      else
        (case connect answer (w\<lparr>timerArmed := False\<rparr>) of
           (None, w1) \<Rightarrow> emit [Log Reconnected] (w1\<lparr>isReconnecting := False\<rparr>)
         | (Some e, w1) \<Rightarrow>
             scheduleReconnection (random env)
               ((emit [Log (ReconnectFailed e)] w1)\<lparr>isReconnecting := False\<rparr>)))"

definition handleConnectionError :: "environment \<Rightarrow> watcher \<Rightarrow> watcher" where
  "handleConnectionError env w =
     (if isReconnecting w then w
      else scheduleReconnection (random env) (cleanupConnection w))"

definition stopWatching :: "watcher \<Rightarrow> watcher" where
  "stopWatching w =
     (let w1 = w\<lparr>isWatching := False\<rparr>;
          w2 = (if reconnectTimer w1
                then (emit [ClearTimeout] w1)\<lparr>reconnectTimer := False, timerArmed := False\<rparr>
                else w1)
      in cleanupConnection w2)"

definition startWatching ::
  "environment \<Rightarrow> error + imapConnection \<Rightarrow> watcher \<Rightarrow> watcher" where
  "startWatching env answer w =
     (if isWatching w then emit [Log AlreadyWatching] w
      else
        (case connect answer w of
           (None, w1) \<Rightarrow> emit [Log WatcherActive] (w1\<lparr>isWatching := True\<rparr>)
         | (Some e, w1) \<Rightarrow>
             (let w2 = w1\<lparr>isWatching := False\<rparr>
              in if textCode e = Some AUTHORIZATION_FAILED_KEY
                 then stopWatching (emit [Log InvalidCredentials] w2)
                 else scheduleReconnection (random env) (emit [Log (FailedToStart e)] w2))))"

text \<open>The handlers of \<open>error\<close> and \<open>close\<close>, and one tick of the keepalive interval.\<close>

definition onImapError :: "environment \<Rightarrow> watcher \<Rightarrow> watcher" where
  "onImapError env w = handleConnectionError env (emit [Log ImapErrorEvent] w)"

definition onImapClose :: "environment \<Rightarrow> bool \<Rightarrow> watcher \<Rightarrow> watcher" where
  "onImapClose env hadError w =
     (let w1 = emit [Log (ConnectionClosed hadError)] w
      in if hadError then handleConnectionError env w1 else w1)"

definition onKeepAlive :: "environment \<Rightarrow> watcher \<Rightarrow> watcher" where
  "onKeepAlive env w =
     (if \<not> keepAliveTimer w then w
      else
        (case connection w of
           None \<Rightarrow> w
         | Some c \<Rightarrow>
             if imapState c = ''authenticated''
             then (case openBox c of
                     Inl e \<Rightarrow>
                       handleConnectionError env (emit [OpenBox, Log (KeepaliveFailed e)] w)
                   | Inr _ \<Rightarrow> emit [OpenBox] w)
             else w))"

subsection \<open>Classification and relocation of one message\<close>

text \<open>
  Lines 324 to 336 of \<open>onNewMails\<close> and 394 to 405 of \<open>processHistoricalEmails\<close>, which are
  the same text: the effects, and the error \<open>moveToSpamFolder\<close> throws, if it throws.
\<close>

definition classifyAndRelocate ::
  "imapConnection \<Rightarrow> emailAnalyzer \<Rightarrow> real \<Rightarrow> emailContent \<Rightarrow> effect list \<times> error option" where
  "classifyAndRelocate c an threshold email =
     (let result = isScamEmail an email;
          begun = [Log (Analyzing (subject email)), IsScamEmail email]
      in if scam_probability result \<ge> threshold
         then (let (effs, thrown) = moveToSpamFolder c (uid email)
               in (begun @ [Log (ScamDetected (scam_probability result) (subject email))] @ effs,
                   thrown))
         else (begun @ [Log (Legitimate (subject email))], None))"

subsection \<open>onNewMails\<close>

text \<open>The loop \<open>for (const email of emails)\<close>: an error thrown by one message leaves it.\<close>

fun processBatch ::
  "imapConnection \<Rightarrow> emailAnalyzer \<Rightarrow> real \<Rightarrow> emailContent list \<Rightarrow> effect list \<times> error option" where
  "processBatch c an threshold [] = ([], None)"
| "processBatch c an threshold (email # rest) =
     (case classifyAndRelocate c an threshold email of
        (effs, Some e) \<Rightarrow> (effs, Some e)
      | (effs, None) \<Rightarrow>
          (let (effs', thrown) = processBatch c an threshold rest
           in (effs @ effs', thrown)))"

definition onNewMails :: "nat \<Rightarrow> nat \<Rightarrow> watcher \<Rightarrow> error option \<times> watcher" where
  "onNewMails totalMessages numberOfEmails w =
     (case connection w of
        None \<Rightarrow> (None, w)
      | Some c \<Rightarrow>
          (case fetchEmailsBatch c (int totalMessages - int numberOfEmails + 1)
                  (int totalMessages) of
             (effs, Inl e) \<Rightarrow> (Some e, emit effs w)
           | (effs, Inr emails) \<Rightarrow>
               (let (effs', thrown) = processBatch c (analyzer w) (scamThreshold w) emails
                in (thrown, emit (effs @ effs') w))))"

subsection \<open>processHistoricalEmails\<close>

text \<open>The body of the loop \<open>for (const message of messages)\<close> with its own \<open>try\<close>.\<close>

definition backfillMessage ::
  "imapConnection \<Rightarrow> emailAnalyzer \<Rightarrow> real \<Rightarrow> int \<Rightarrow> rawMessage \<Rightarrow> effect list" where
  "backfillMessage c an threshold lowerBound message =
     (case allPart message of
        None \<Rightarrow> []
      | Some (Inl e) \<Rightarrow> [Log (BackfillMessageError e)]
      | Some (Inr parsed) \<Rightarrow>
          (let email = toEmailContent message parsed
           in if date email < lowerBound
              then [Log (SkippingOlder (date email) (subject email))]
              else (case classifyAndRelocate c an threshold email of
                      (effs, Some e) \<Rightarrow> effs @ [Log (BackfillMessageError e)]
                    | (effs, None) \<Rightarrow> effs)))"

definition processHistoricalEmails :: "int \<Rightarrow> watcher \<Rightarrow> error option \<times> watcher" where
  "processHistoricalEmails lowerBound w =
     (case connection w of
        None \<Rightarrow> (None, w)
      | Some c \<Rightarrow>
          (case openBox c of
             Inl e \<Rightarrow> (Some e, emit [OpenBox] w)
           | Inr _ \<Rightarrow>
               (let begun = [OpenBox, Log (SearchingSince lowerBound), Search (Since lowerBound)]
                in case search c (Since lowerBound) of
                     Inl e \<Rightarrow> (Some e, emit begun w)
                   | Inr messages \<Rightarrow>
                       (None,
                        emit (begun @ [Log (FoundMessages (length messages))] @
                              concat (map (backfillMessage c (analyzer w) (scamThreshold w)
                                             lowerBound) messages)) w))))"

subsection \<open>updateAnalyzedUntil\<close>

definition truthy :: "string option \<Rightarrow> bool" where
  "truthy v = (case v of Some s \<Rightarrow> s \<noteq> [] | None \<Rightarrow> False)"

text \<open>
  \<open>data.findIndex(...)\<close> from index \<open>i\<close> on: reading \<open>acc.user\<close> or \<open>acc.label\<close> of a
  \<open>null\<close> element throws.
\<close>

fun findIndex :: "watcher \<Rightarrow> accountEntry list \<Rightarrow> nat \<Rightarrow> error + nat option" where
  "findIndex w [] i = Inr None"
| "findIndex w (NullEntry # rest) i =
     (if truthy (accountUser w) \<or> truthy (label w) then Inl (Error None)
      else findIndex w rest (Suc i))"
| "findIndex w (Entry user lbl until # rest) i =
     (if (truthy (accountUser w) \<and> user = accountUser w)
         \<or> (truthy (label w) \<and> lbl = label w)
      then Inr (Some i)
      else findIndex w rest (Suc i))"

definition setAnalyzedUntil :: "int \<Rightarrow> accountEntry \<Rightarrow> accountEntry" where
  "setAnalyzedUntil d acc =
     (case acc of NullEntry \<Rightarrow> NullEntry | Entry user lbl until \<Rightarrow> Entry user lbl (Some d))"

definition updateAnalyzedUntil :: "environment \<Rightarrow> int \<Rightarrow> watcher \<Rightarrow> watcher" where
  "updateAnalyzedUntil env d w =
     (if \<not> truthy (configPath w) then w
      else
        (case configFile env of
           ReadThrows e \<Rightarrow> emit [ReadConfig, Log (PersistFailed e)] w
         | ParseThrows e \<Rightarrow> emit [ReadConfig, Log (PersistFailed e)] w
         | NotArray \<Rightarrow> emit [ReadConfig] w
         | Accounts data \<Rightarrow>
             (case findIndex w data 0 of
                Inl e \<Rightarrow> emit [ReadConfig, Log (PersistFailed e)] w
              | Inr None \<Rightarrow> emit [ReadConfig] w
              | Inr (Some idx) \<Rightarrow>
                  (let written = data[idx := setAnalyzedUntil d (data ! idx)]
                   in case writeThrows env of
                        Some e \<Rightarrow>
                          emit [ReadConfig, WriteConfig written, Log (PersistFailed e)] w
                      | None \<Rightarrow>
                          (emit [ReadConfig, WriteConfig written] w)
                          \<lparr>emailsAnalyzedUntil := Some d\<rparr>))))"

subsection \<open>The handler of the \<open>mail\<close> event\<close>

text \<open>
  Where the handler stands when it gives control back: it has returned, or it waits for
  \<open>processHistoricalEmails(lowerBound)\<close>, which it has just called.
\<close>

datatype handlerStatus = Returned | AwaitingBackfill int

text \<open>
  Lines 133 to 146 and, when the guard is closed, the \<open>finally\<close> of line 155: between the
  test of \<open>isBackfilling\<close> and the call of \<open>processHistoricalEmails\<close> there is no \<open>await\<close>.
\<close>

definition backfillGuard :: "nat \<Rightarrow> watcher \<Rightarrow> handlerStatus \<times> watcher" where
  "backfillGuard numberOfEmails w =
     (let w1 = emit [Log (InitialCount numberOfEmails)] w
      in if \<not> isBackfilling w1
         then (let lowerBound = (case emailsAnalyzedUntil w1 of Some d \<Rightarrow> d | None \<Rightarrow> 0)
               in (AwaitingBackfill lowerBound,
                   emit [Log (BackfillLowerBound lowerBound)] (w1\<lparr>isBackfilling := True\<rparr>)))
         else (Returned, w1\<lparr>isBackfilling := False\<rparr>))"

text \<open>
  The rest of the guarded block once the scan is over: lines 146 and 147, the \<open>catch\<close> and
  the \<open>finally\<close>. The effects of the scan are recorded when it completes.
\<close>

definition backfillRun :: "environment \<Rightarrow> int \<Rightarrow> watcher \<Rightarrow> watcher" where
  "backfillRun env lowerBound w =
     (case processHistoricalEmails lowerBound w of
        (Some e, w1) \<Rightarrow> (emit [Log (BackfillError e)] w1)\<lparr>isBackfilling := False\<rparr>
      | (None, w1) \<Rightarrow> (updateAnalyzedUntil env (dayjsNow env) w1)\<lparr>isBackfilling := False\<rparr>)"

text \<open>Lines 160 to 174: the path of live new mail.\<close>

definition liveMail :: "environment \<Rightarrow> nat \<Rightarrow> nat \<Rightarrow> watcher \<Rightarrow> watcher" where
  "liveMail env totalMessages numberOfEmails w =
     (case onNewMails totalMessages numberOfEmails
             (emit [Log (NewEmailsReceived numberOfEmails)] w) of
        (Some e, w1) \<Rightarrow> emit [Log (NewEmailsError e)] w1
      | (None, w1) \<Rightarrow> updateAnalyzedUntil env (dayjsNow env) w1)"

text \<open>
  The handler from the event to the point where it returns or waits for the scan. A
  rejection of \<open>getTotalMessages\<close> is not caught: the handler ends there.
\<close>

definition mailBegin :: "environment \<Rightarrow> nat \<Rightarrow> watcher \<Rightarrow> handlerStatus \<times> watcher" where
  "mailBegin env numberOfEmails w =
     (case connection w of
        None \<Rightarrow> (Returned, w)
      | Some c \<Rightarrow>
          (case getTotalMessages c of
             (effs, Inl e) \<Rightarrow> (Returned, emit effs w)
           | (effs, Inr totalMessages) \<Rightarrow>
               if totalMessages = numberOfEmails
               then backfillGuard numberOfEmails (emit effs w)
               else (Returned, liveMail env totalMessages numberOfEmails (emit effs w))))"

text \<open>The handler run to its end with nothing else running in between.\<close>

definition mailHandler :: "environment \<Rightarrow> nat \<Rightarrow> watcher \<Rightarrow> watcher" where
  "mailHandler env numberOfEmails w =
     (case mailBegin env numberOfEmails w of
        (Returned, w1) \<Rightarrow> w1
      | (AwaitingBackfill lowerBound, w1) \<Rightarrow> backfillRun env lowerBound w1)"

subsection \<open>Handlers that overlap\<close>

text \<open>
  While a handler waits for its scan, the event loop runs other handlers. The state is the
  watcher with the lower bounds of the scans in flight. A \<open>mail\<close> event runs the handler
  up to its return or its wait; \<open>BackfillCompletes i\<close> lets the scan at position \<open>i\<close> end
  and its handler run to the end.
\<close>

datatype notification = MailEvent nat | BackfillCompletes nat

fun deliver ::
  "environment \<Rightarrow> notification \<Rightarrow> watcher \<times> int list \<Rightarrow> watcher \<times> int list" where
  "deliver env (MailEvent n) (w, scans) =
     (case mailBegin env n w of
        (Returned, w1) \<Rightarrow> (w1, scans)
      | (AwaitingBackfill lowerBound, w1) \<Rightarrow> (w1, scans @ [lowerBound]))"
| "deliver env (BackfillCompletes i) (w, scans) =
     (if i < length scans
      then (backfillRun env (scans ! i) w, take i scans @ drop (Suc i) scans)
      else (w, scans))"

fun deliverAll ::
  "environment \<Rightarrow> notification list \<Rightarrow> watcher \<times> int list \<Rightarrow> watcher \<times> int list" where
  "deliverAll env [] s = s"
| "deliverAll env (n # ns) s = deliverAll env ns (deliver env n s)"

subsection \<open>The watcher as a state machine\<close>

text \<open>
  One event is one handler run to its end. The events of the connection are accepted in
  every state, also when no listener is registered.
\<close>

datatype event =
    StartWatching "error + imapConnection"
  | StopWatching
  | Mail nat
  | ImapError
  | ImapClose bool
  | KeepAliveTick
  | ReconnectTimerFires "error + imapConnection"

fun step :: "environment \<Rightarrow> event \<Rightarrow> watcher \<Rightarrow> watcher" where
  "step env (StartWatching answer) w = startWatching env answer w"
| "step env StopWatching w = stopWatching w"
| "step env (Mail n) w = mailHandler env n w"
| "step env ImapError w = onImapError env w"
| "step env (ImapClose hadError) w = onImapClose env hadError w"
| "step env KeepAliveTick w = onKeepAlive env w"
| "step env (ReconnectTimerFires answer) w = onReconnectTimer env answer w"

fun run :: "(environment \<times> event) list \<Rightarrow> watcher \<Rightarrow> watcher" where
  "run [] w = w"
| "run ((env, ev) # rest) w = run rest (step env ev w)"

text \<open>An event whose handler calls \<open>connect()\<close> and sees it succeed.\<close>

fun connectSucceeds :: "event \<Rightarrow> watcher \<Rightarrow> bool" where
  "connectSucceeds (StartWatching (Inr c)) w = (\<not> isWatching w \<and> isl (openBox c) = False)"
| "connectSucceeds (ReconnectTimerFires (Inr c)) w = (timerArmed w \<and> isl (openBox c) = False)"
| "connectSucceeds ev w = False"

text \<open>The signals of a failed connection: an error, a close with error, a keepalive tick.\<close>

fun failureSignal :: "event \<Rightarrow> bool" where
  "failureSignal ImapError = True"
| "failureSignal (ImapClose hadError) = hadError"
| "failureSignal KeepAliveTick = True"
| "failureSignal ev = False"

text \<open>A call of \<open>startWatching()\<close>: the one event that comes from outside the watcher.\<close>

fun isStartWatching :: "event \<Rightarrow> bool" where
  "isStartWatching (StartWatching answer) = True"
| "isStartWatching ev = False"

definition isSetTimeout :: "effect \<Rightarrow> bool" where
  "isSetTimeout e = (case e of SetTimeout d \<Rightarrow> True | _ \<Rightarrow> False)"

text \<open>How many reconnect timeouts have been scheduled so far.\<close>

definition timeoutsScheduled :: "watcher \<Rightarrow> nat" where
  "timeoutsScheduled w = length (filter isSetTimeout (trace w))"

subsection \<open>Reading a trace\<close>

text \<open>The mails handed to the classifier and the messages a move was issued for, in order.\<close>

definition classified :: "effect list \<Rightarrow> emailContent list" where
  "classified es = concat (map (\<lambda>e. case e of IsScamEmail email \<Rightarrow> [email] | _ \<Rightarrow> []) es)"

definition relocated :: "effect list \<Rightarrow> nat list" where
  "relocated es = concat (map (\<lambda>e. case e of MoveMessage u target \<Rightarrow> [u] | _ \<Rightarrow> []) es)"

text \<open>
  A persistence attempt fails with \<open>e\<close>: the read, the parse, the search of the account or
  the write throws \<open>e\<close>. It succeeds when the account is found and the write returns.
\<close>

definition persistenceFails :: "environment \<Rightarrow> watcher \<Rightarrow> error \<Rightarrow> bool" where
  "persistenceFails env w e =
     (truthy (configPath w) \<and>
      (case configFile env of
         ReadThrows e' \<Rightarrow> e' = e
       | ParseThrows e' \<Rightarrow> e' = e
       | NotArray \<Rightarrow> False
       | Accounts data \<Rightarrow>
           (case findIndex w data 0 of
              Inl e' \<Rightarrow> e' = e
            | Inr None \<Rightarrow> False
            | Inr (Some idx) \<Rightarrow> writeThrows env = Some e)))"

definition persistenceSucceeds :: "environment \<Rightarrow> watcher \<Rightarrow> bool" where
  "persistenceSucceeds env w =
     (truthy (configPath w) \<and>
      (case configFile env of
         Accounts data \<Rightarrow>
           (case findIndex w data 0 of
              Inr (Some idx) \<Rightarrow> writeThrows env = None
            | _ \<Rightarrow> False)
       | _ \<Rightarrow> False))"

subsection \<open>A concrete account, its server and its mails\<close>

definition nestedSpamTree :: "mailbox list" where
  "nestedSpamTree = [Mailbox ''INBOX'' [Mailbox ''Spam'' [] []] [], Mailbox ''Junk'' [] []]"

definition nestedJunkTree :: "mailbox list" where
  "nestedJunkTree = [Mailbox ''INBOX'' [Mailbox ''Junk'' [] []] []]"

definition parsedAt :: "int \<Rightarrow> string \<Rightarrow> parsedMail" where
  "parsedAt d s =
     \<lparr>parsed_date = Some d, parsed_subject = Some s, parsed_from = Some ''x@y.z'',
      parsed_text = Some exampleText, parsed_html = None\<rparr>"

definition mailOne :: rawMessage where
  "mailOne = \<lparr>attr_uid = 101, allPart = Some (Inr (parsedAt 5000 ''One'')), clock = 9000\<rparr>"

definition mailTwo :: rawMessage where
  "mailTwo = \<lparr>attr_uid = 102, allPart = Some (Inr (parsedAt 6000 ''Two'')), clock = 9000\<rparr>"

definition oldMail :: rawMessage where
  "oldMail = \<lparr>attr_uid = 103, allPart = Some (Inr (parsedAt 500 ''Old'')), clock = 9000\<rparr>"

definition brokenMail :: rawMessage where
  "brokenMail = \<lparr>attr_uid = 104, allPart = Some (Inl (Error None)), clock = 9000\<rparr>"

definition emailOne :: emailContent where
  "emailOne = toEmailContent mailOne (parsedAt 5000 ''One'')"

definition emailTwo :: emailContent where
  "emailTwo = toEmailContent mailTwo (parsedAt 6000 ''Two'')"

definition exampleConnection :: imapConnection where
  "exampleConnection =
     \<lparr>openBox = Inr 5, search = (\<lambda>criteria. Inr [mailOne, mailTwo]),
      getBoxes = Inr nestedJunkTree, addBox = (\<lambda>name. None),
      moveMessage = (\<lambda>u target. None), imapState = ''authenticated'', endThrows = False\<rparr>"

definition failingMoveConnection :: imapConnection where
  "failingMoveConnection =
     exampleConnection\<lparr>moveMessage := (\<lambda>u target. if u = 101 then Some (Error None) else None)\<rparr>"

definition brokenMailConnection :: imapConnection where
  "brokenMailConnection = exampleConnection\<lparr>search := (\<lambda>criteria. Inr [brokenMail, mailTwo])\<rparr>"

definition oldMailConnection :: imapConnection where
  "oldMailConnection = exampleConnection\<lparr>search := (\<lambda>criteria. Inr [mailTwo, oldMail])\<rparr>"

definition emptyBoxesConnection :: imapConnection where
  "emptyBoxesConnection =
     exampleConnection\<lparr>getBoxes := Inr [], addBox := (\<lambda>name. Some (Error None))\<rparr>"

definition exampleOptions :: watcherOptions where
  "exampleOptions =
     \<lparr>opt_label = Some ''Yahoo'', opt_scamThreshold = Some 80, opt_analyzer = exampleAnalyzer,
      opt_configPath = Some ''accounts.json'', opt_accountUser = Some ''a@b.c'',
      opt_emailsAnalyzedUntil = Some 1000\<rparr>"

definition exampleEnvironment :: environment where
  "exampleEnvironment =
     \<lparr>random = 1 / 2, dayjsNow = 10000,
      configFile = Accounts [Entry (Some ''a@b.c'') (Some ''Yahoo'') (Some 1000)],
      writeThrows = None\<rparr>"

definition failingWriteEnvironment :: environment where
  "failingWriteEnvironment = exampleEnvironment\<lparr>writeThrows := Some (Error None)\<rparr>"

text \<open>The watcher of the account after \<open>startWatching()\<close> has connected to a server.\<close>

definition watching :: "imapConnection \<Rightarrow> watcher" where
  "watching c = startWatching exampleEnvironment (Inr c) (newWatcher exampleOptions)"

text \<open>A start and five reconnect attempts that the server refuses.\<close>

definition refused :: "error + imapConnection" where
  "refused = Inl (Error None)"

definition fiveFailures :: "(environment \<times> event) list" where
  "fiveFailures =
     [(exampleEnvironment, StartWatching refused),
      (exampleEnvironment, ReconnectTimerFires refused),
      (exampleEnvironment, ReconnectTimerFires refused),
      (exampleEnvironment, ReconnectTimerFires refused),
      (exampleEnvironment, ReconnectTimerFires refused),
      (exampleEnvironment, ReconnectTimerFires refused)]"

text \<open>Later signals of failure, and a timer callback with no timeout waiting.\<close>

definition sixthSignals :: "(environment \<times> event) list" where
  "sixthSignals =
     [(exampleEnvironment, ImapError),
      (exampleEnvironment, ImapClose True),
      (exampleEnvironment, KeepAliveTick),
      (exampleEnvironment, ReconnectTimerFires (Inr exampleConnection))]"

section \<open>Properties of the sanitizer\<close>



























section \<open>Lemmas about the watcher\<close>

subsection \<open>Traces\<close>

lemma emit_fields [simp]:
  "reconnectAttempts (emit es w) = reconnectAttempts w"
  "isReconnecting (emit es w) = isReconnecting w"
  "timerArmed (emit es w) = timerArmed w"
  "connection (emit es w) = connection w"
  "keepAliveTimer (emit es w) = keepAliveTimer w"
  "isWatching (emit es w) = isWatching w"
  "reconnectTimer (emit es w) = reconnectTimer w"
  "isBackfilling (emit es w) = isBackfilling w"
  "emailsAnalyzedUntil (emit es w) = emailsAnalyzedUntil w"
  "analyzer (emit es w) = analyzer w"
  "scamThreshold (emit es w) = scamThreshold w"
  "label (emit es w) = label w"
  "configPath (emit es w) = configPath w"
  "accountUser (emit es w) = accountUser w"
  "trace (emit es w) = trace w @ es"
  by (simp_all add: emit_def)

lemma emit_emit: "emit es (emit fs w) = emit (fs @ es) w"
  by (simp add: emit_def)

lemma timeoutsScheduled_emit:
  "timeoutsScheduled (emit es w) = timeoutsScheduled w + length (filter isSetTimeout es)"
  by (simp add: timeoutsScheduled_def)

lemma timeoutsScheduled_update [simp]:
  "timeoutsScheduled (w\<lparr>connection := c\<rparr>) = timeoutsScheduled w"
  "timeoutsScheduled (w\<lparr>keepAliveTimer := k\<rparr>) = timeoutsScheduled w"
  "timeoutsScheduled (w\<lparr>isBackfilling := b\<rparr>) = timeoutsScheduled w"
  "timeoutsScheduled (w\<lparr>emailsAnalyzedUntil := u\<rparr>) = timeoutsScheduled w"
  "timeoutsScheduled (w\<lparr>isReconnecting := r\<rparr>) = timeoutsScheduled w"
  "timeoutsScheduled (w\<lparr>isWatching := i\<rparr>) = timeoutsScheduled w"
  "timeoutsScheduled (w\<lparr>reconnectAttempts := n\<rparr>) = timeoutsScheduled w"
  "timeoutsScheduled (w\<lparr>reconnectTimer := t\<rparr>) = timeoutsScheduled w"
  "timeoutsScheduled (w\<lparr>timerArmed := a\<rparr>) = timeoutsScheduled w"
  by (simp_all add: timeoutsScheduled_def)

lemma isSetTimeout_simps [simp]:
  "isSetTimeout (SetTimeout d) = True"
  "isSetTimeout (Log m) = False"
  by (simp_all add: isSetTimeout_def)

lemma classified_simps [simp]:
  "classified [] = []"
  "classified (es @ fs) = classified es @ classified fs"
  "classified (IsScamEmail email # es) = email # classified es"
  "classified (Log m # es) = classified es"
  "classified (GetBoxes # es) = classified es"
  "classified (AddBox b # es) = classified es"
  "classified (MoveMessage u t # es) = classified es"
  "classified (OpenBox # es) = classified es"
  "classified (Search cr # es) = classified es"
  "classified (ReadConfig # es) = classified es"
  "classified (WriteConfig d # es) = classified es"
  "classified (ImapConnect # es) = classified es"
  "classified (RegisterHandlers # es) = classified es"
  "classified (RemoveAllListeners # es) = classified es"
  "classified (EndConnection # es) = classified es"
  "classified (SetTimeout dl # es) = classified es"
  "classified (ClearTimeout # es) = classified es"
  "classified (SetInterval # es) = classified es"
  "classified (ClearInterval # es) = classified es"
  by (simp_all add: classified_def)

lemma relocated_simps [simp]:
  "relocated [] = []"
  "relocated (es @ fs) = relocated es @ relocated fs"
  "relocated (MoveMessage u t # es) = u # relocated es"
  "relocated (IsScamEmail email # es) = relocated es"
  "relocated (Log m # es) = relocated es"
  "relocated (GetBoxes # es) = relocated es"
  "relocated (AddBox b # es) = relocated es"
  "relocated (OpenBox # es) = relocated es"
  "relocated (Search cr # es) = relocated es"
  "relocated (ReadConfig # es) = relocated es"
  "relocated (WriteConfig d # es) = relocated es"
  "relocated (ImapConnect # es) = relocated es"
  "relocated (RegisterHandlers # es) = relocated es"
  "relocated (RemoveAllListeners # es) = relocated es"
  "relocated (EndConnection # es) = relocated es"
  "relocated (SetTimeout dl # es) = relocated es"
  "relocated (ClearTimeout # es) = relocated es"
  "relocated (SetInterval # es) = relocated es"
  "relocated (ClearInterval # es) = relocated es"
  by (simp_all add: relocated_def)

subsection \<open>The reconnect counter and the timeouts\<close>

lemma stopKeepAlive_reconnect [simp]:
  "reconnectAttempts (stopKeepAlive w) = reconnectAttempts w"
  "isReconnecting (stopKeepAlive w) = isReconnecting w"
  "timerArmed (stopKeepAlive w) = timerArmed w"
  "connection (stopKeepAlive w) = connection w"
  "timeoutsScheduled (stopKeepAlive w) = timeoutsScheduled w"
  by (simp_all add: stopKeepAlive_def timeoutsScheduled_emit isSetTimeout_def)

lemma startKeepAlive_reconnect [simp]:
  "reconnectAttempts (startKeepAlive w) = reconnectAttempts w"
  "isReconnecting (startKeepAlive w) = isReconnecting w"
  "timerArmed (startKeepAlive w) = timerArmed w"
  "timeoutsScheduled (startKeepAlive w) = timeoutsScheduled w"
  by (simp_all add: startKeepAlive_def Let_def timeoutsScheduled_emit isSetTimeout_def
      split: option.splits)

lemma cleanupConnection_reconnect [simp]:
  "reconnectAttempts (cleanupConnection w) = reconnectAttempts w"
  "isReconnecting (cleanupConnection w) = isReconnecting w"
  "timerArmed (cleanupConnection w) = timerArmed w"
  "timeoutsScheduled (cleanupConnection w) = timeoutsScheduled w"
  by (simp_all add: cleanupConnection_def timeoutsScheduled_emit isSetTimeout_def
      split: option.splits)

lemma connect_attempts:
  "reconnectAttempts (snd (connect answer w)) =
     (if fst (connect answer w) = None then 0 else reconnectAttempts w)"
  by (simp add: connect_def Let_def split: sum.splits)

lemma connect_result:
  "fst (connect answer w) = None \<longleftrightarrow> (\<exists>c. answer = Inr c \<and> \<not> isl (openBox c))"
  by (auto simp: connect_def Let_def split: sum.splits)

lemma connect_keeps [simp]:
  "isReconnecting (snd (connect answer w)) = isReconnecting w"
  "timerArmed (snd (connect answer w)) = timerArmed w"
  "timeoutsScheduled (snd (connect answer w)) = timeoutsScheduled w"
  by (simp_all add: connect_def Let_def timeoutsScheduled_emit isSetTimeout_def split: sum.splits)

lemma scheduleReconnection_exhausted:
  "maxReconnectAttempts \<le> reconnectAttempts w \<Longrightarrow>
     scheduleReconnection r w = emit [Log MaxAttemptsReached] w"
  by (simp add: scheduleReconnection_def)

lemma scheduleReconnection_attempts:
  "reconnectAttempts (scheduleReconnection r w) =
     (if isReconnecting w \<or> maxReconnectAttempts \<le> reconnectAttempts w
      then reconnectAttempts w else Suc (reconnectAttempts w))"
  by (simp add: scheduleReconnection_def Let_def)

lemma scheduleReconnection_bound:
  "reconnectAttempts w \<le> maxReconnectAttempts \<Longrightarrow>
     reconnectAttempts (scheduleReconnection r w) \<le> maxReconnectAttempts"
  by (simp add: scheduleReconnection_attempts)

lemma scheduleReconnection_mono:
  "reconnectAttempts w \<le> reconnectAttempts (scheduleReconnection r w)"
  by (simp add: scheduleReconnection_attempts)

lemma stopWatching_attempts [simp]:
  "reconnectAttempts (stopWatching w) = reconnectAttempts w"
  by (simp add: stopWatching_def Let_def)

lemma updateAnalyzedUntil_keeps [simp]:
  "reconnectAttempts (updateAnalyzedUntil env d w) = reconnectAttempts w"
  "isReconnecting (updateAnalyzedUntil env d w) = isReconnecting w"
  "timerArmed (updateAnalyzedUntil env d w) = timerArmed w"
  "connection (updateAnalyzedUntil env d w) = connection w"
  by (simp_all add: updateAnalyzedUntil_def Let_def
      split: fileContent.splits sum.splits option.splits)

lemma processHistoricalEmails_keeps [simp]:
  "reconnectAttempts (snd (processHistoricalEmails lb w)) = reconnectAttempts w"
  by (simp add: processHistoricalEmails_def Let_def split: option.splits sum.splits)

lemma onNewMails_keeps [simp]:
  "reconnectAttempts (snd (onNewMails t n w)) = reconnectAttempts w"
  by (simp add: onNewMails_def Let_def split: option.splits sum.splits prod.splits)

lemma backfillRun_keeps [simp]:
  "reconnectAttempts (backfillRun env lb w) = reconnectAttempts w"
proof (cases "processHistoricalEmails lb w")
  case (Pair thrown w1)
  then have "reconnectAttempts w1 = reconnectAttempts w"
    using processHistoricalEmails_keeps [of lb w] by simp
  with Pair show ?thesis by (simp add: backfillRun_def split: option.splits)
qed

lemma liveMail_keeps [simp]:
  "reconnectAttempts (liveMail env t n w) = reconnectAttempts w"
proof (cases "onNewMails t n (emit [Log (NewEmailsReceived n)] w)")
  case (Pair thrown w1)
  then have "reconnectAttempts w1 = reconnectAttempts w"
    using onNewMails_keeps [of t n "emit [Log (NewEmailsReceived n)] w"] by simp
  with Pair show ?thesis by (simp add: liveMail_def split: option.splits)
qed

lemma backfillGuard_keeps [simp]:
  "reconnectAttempts (snd (backfillGuard n w)) = reconnectAttempts w"
  by (simp add: backfillGuard_def Let_def)

lemma mailBegin_keeps [simp]:
  "reconnectAttempts (snd (mailBegin env n w)) = reconnectAttempts w"
  by (simp add: mailBegin_def getTotalMessages_def split: option.splits sum.splits)

lemma mailHandler_keeps [simp]:
  "reconnectAttempts (mailHandler env n w) = reconnectAttempts w"
proof (cases "mailBegin env n w")
  case (Pair st w1)
  then have "reconnectAttempts w1 = reconnectAttempts w"
    using mailBegin_keeps [of env n w] by simp
  with Pair show ?thesis by (simp add: mailHandler_def split: handlerStatus.splits)
qed

lemma handleConnectionError_attempts:
  "reconnectAttempts w \<le> reconnectAttempts (handleConnectionError env w)"
  "reconnectAttempts w \<le> maxReconnectAttempts \<Longrightarrow>
     reconnectAttempts (handleConnectionError env w) \<le> maxReconnectAttempts"
  by (simp_all add: handleConnectionError_def scheduleReconnection_attempts)

lemma startWatching_attempts:
  "reconnectAttempts (startWatching env answer w) =
     (if isWatching w then reconnectAttempts w
      else if fst (connect answer w) = None then 0
      else if (\<exists>e. fst (connect answer w) = Some e \<and> textCode e = Some AUTHORIZATION_FAILED_KEY)
           then reconnectAttempts w
      else if isReconnecting w \<or> maxReconnectAttempts \<le> reconnectAttempts w
           then reconnectAttempts w else Suc (reconnectAttempts w))"
proof (cases "connect answer w")
  case (Pair thrown w1)
  have a: "reconnectAttempts w1 = (if thrown = None then 0 else reconnectAttempts w)"
    using connect_attempts [of answer w] Pair by simp
  have b: "isReconnecting w1 = isReconnecting w"
    using connect_keeps(1) [of answer w] Pair by simp
  show ?thesis
    using Pair a b
    by (cases thrown) (simp_all add: startWatching_def Let_def scheduleReconnection_attempts)
qed

lemma onReconnectTimer_attempts:
  "reconnectAttempts (onReconnectTimer env answer w) =
     (if \<not> timerArmed w then reconnectAttempts w
      else if fst (connect answer (w\<lparr>timerArmed := False\<rparr>)) = None then 0
      else if maxReconnectAttempts \<le> reconnectAttempts w
           then reconnectAttempts w else Suc (reconnectAttempts w))"
proof (cases "connect answer (w\<lparr>timerArmed := False\<rparr>)")
  case (Pair thrown w1)
  have a: "reconnectAttempts w1 = (if thrown = None then 0 else reconnectAttempts w)"
    using connect_attempts [of answer "w\<lparr>timerArmed := False\<rparr>"] Pair by simp
  show ?thesis
    using Pair a
    by (cases thrown) (simp_all add: onReconnectTimer_def scheduleReconnection_attempts)
qed

lemma connect_ignores_armed:
  "fst (connect answer (w\<lparr>timerArmed := a\<rparr>)) = fst (connect answer w)"
  by (simp add: connect_def Let_def split: sum.splits)

lemma step_bound:
  "reconnectAttempts w \<le> maxReconnectAttempts \<Longrightarrow>
     reconnectAttempts (step env ev w) \<le> maxReconnectAttempts"
  by (cases ev)
     (auto simp: startWatching_attempts onReconnectTimer_attempts onImapError_def
        onImapClose_def onKeepAlive_def Let_def handleConnectionError_def
        scheduleReconnection_attempts
        split: option.splits sum.splits)

lemma run_bound:
  "reconnectAttempts w \<le> maxReconnectAttempts \<Longrightarrow>
     reconnectAttempts (run evs w) \<le> maxReconnectAttempts"
proof (induction evs arbitrary: w)
  case Nil
  then show ?case by simp
next
  case (Cons a evs)
  obtain env ev where a: "a = (env, ev)" by (cases a)
  from Cons.prems have "reconnectAttempts (step env ev w) \<le> maxReconnectAttempts"
    by (rule step_bound)
  then show ?case using Cons.IH a by simp
qed

lemma step_reset:
  "connectSucceeds ev w \<Longrightarrow> reconnectAttempts (step env ev w) = 0"
proof (cases ev)
  case (StartWatching answer)
  assume "connectSucceeds ev w"
  with StartWatching obtain c where "answer = Inr c" "\<not> isWatching w" "\<not> isl (openBox c)"
    by (cases answer) auto
  then show ?thesis using StartWatching connect_result [of answer w]
    by (simp add: startWatching_attempts)
next
  case (ReconnectTimerFires answer)
  assume "connectSucceeds ev w"
  with ReconnectTimerFires obtain c where "answer = Inr c" "timerArmed w" "\<not> isl (openBox c)"
    by (cases answer) auto
  then show ?thesis using ReconnectTimerFires connect_result [of answer "w\<lparr>timerArmed := False\<rparr>"]
    by (simp add: onReconnectTimer_attempts)
qed auto

lemma step_no_reset:
  "\<not> connectSucceeds ev w \<Longrightarrow> reconnectAttempts w \<le> reconnectAttempts (step env ev w)"
proof (cases ev)
  case (StartWatching answer)
  assume n: "\<not> connectSucceeds ev w"
  show ?thesis
  proof (cases "isWatching w")
    case True
    then show ?thesis using StartWatching by (simp add: startWatching_attempts)
  next
    case False
    with n StartWatching have "fst (connect answer w) \<noteq> None"
      using connect_result [of answer w] by (cases answer) auto
    then obtain e where "fst (connect answer w) = Some e" by auto
    then show ?thesis using StartWatching by (simp add: startWatching_attempts)
  qed
next
  case (ReconnectTimerFires answer)
  assume n: "\<not> connectSucceeds ev w"
  show ?thesis
  proof (cases "timerArmed w")
    case False
    then show ?thesis using ReconnectTimerFires by (simp add: onReconnectTimer_attempts)
  next
    case True
    with n ReconnectTimerFires have "fst (connect answer (w\<lparr>timerArmed := False\<rparr>)) \<noteq> None"
      using connect_result [of answer "w\<lparr>timerArmed := False\<rparr>"] by (cases answer) auto
    then obtain e where "fst (connect answer (w\<lparr>timerArmed := False\<rparr>)) = Some e" by auto
    then show ?thesis using ReconnectTimerFires by (simp add: onReconnectTimer_attempts)
  qed
qed (auto simp: onImapError_def onImapClose_def onKeepAlive_def Let_def
       handleConnectionError_def scheduleReconnection_attempts split: option.splits sum.splits)

lemma handleConnectionError_exhausted:
  "maxReconnectAttempts \<le> reconnectAttempts w \<Longrightarrow>
     timeoutsScheduled (handleConnectionError env w) = timeoutsScheduled w
     \<and> timerArmed (handleConnectionError env w) = timerArmed w"
  by (simp add: handleConnectionError_def scheduleReconnection_exhausted
      timeoutsScheduled_emit isSetTimeout_def)

lemma failureSignal_exhausted:
  "maxReconnectAttempts \<le> reconnectAttempts w \<Longrightarrow> failureSignal ev \<Longrightarrow>
     timeoutsScheduled (step env ev w) = timeoutsScheduled w
     \<and> timerArmed (step env ev w) = timerArmed w"
proof (cases ev)
  case ImapError
  assume "maxReconnectAttempts \<le> reconnectAttempts w"
  then show ?thesis
    using ImapError handleConnectionError_exhausted [of "emit [Log ImapErrorEvent] w" env]
    by (simp add: onImapError_def timeoutsScheduled_emit isSetTimeout_def)
next
  case (ImapClose hadError)
  assume "maxReconnectAttempts \<le> reconnectAttempts w"
  then show ?thesis
    using ImapClose handleConnectionError_exhausted [of "emit [Log (ConnectionClosed hadError)] w" env]
    by (cases hadError) (simp_all add: onImapClose_def Let_def timeoutsScheduled_emit isSetTimeout_def)
next
  case KeepAliveTick
  assume m: "maxReconnectAttempts \<le> reconnectAttempts w"
  show ?thesis
  proof (cases "\<exists>c e. keepAliveTimer w \<and> connection w = Some c \<and> imapState c = ''authenticated'' \<and> openBox c = Inl e")
    case True
    then obtain c e where c: "keepAliveTimer w" "connection w = Some c"
      "imapState c = ''authenticated''" "openBox c = Inl e" by blast
    then show ?thesis
      using m KeepAliveTick
        handleConnectionError_exhausted [of "emit [OpenBox, Log (KeepaliveFailed e)] w" env]
      by (simp add: onKeepAlive_def timeoutsScheduled_emit isSetTimeout_def)
  next
    case False
    then show ?thesis using KeepAliveTick
      by (auto simp: onKeepAlive_def timeoutsScheduled_emit isSetTimeout_def
          split: option.splits sum.splits)
  qed
qed auto

lemma no_timeouts_move [simp]:
  "filter isSetTimeout (fst (moveToSpamFolder c u)) = []"
  by (simp add: moveToSpamFolder_def Let_def isSetTimeout_def split: sum.splits option.splits)

lemma no_timeouts_parse [simp]:
  "filter isSetTimeout (fst (parseBatch messages)) = []"
proof (induction messages)
  case Nil
  show ?case by simp
next
  case (Cons m ms)
  obtain pe emails where pb: "parseBatch ms = (pe, emails)"
    by (cases "parseBatch ms")
  with Cons.IH have "filter isSetTimeout pe = []" by simp
  with pb show ?case
    by (simp split: option.splits sum.splits)
qed

lemma no_timeouts_classify [simp]:
  "filter isSetTimeout (fst (classifyAndRelocate c an t email)) = []"
proof (cases "moveToSpamFolder c (uid email)")
  case (Pair effs thrown)
  then have "filter isSetTimeout effs = []"
    using no_timeouts_move [of c "uid email"] by simp
  with Pair show ?thesis by (simp add: classifyAndRelocate_def Let_def isSetTimeout_def)
qed

lemma no_timeouts_batch [simp]:
  "filter isSetTimeout (fst (processBatch c an t emails)) = []"
proof (induction emails)
  case Nil
  show ?case by simp
next
  case (Cons email rest)
  obtain effs thrown where h: "classifyAndRelocate c an t email = (effs, thrown)"
    by (cases "classifyAndRelocate c an t email")
  obtain effs' thrown' where r: "processBatch c an t rest = (effs', thrown')"
    by (cases "processBatch c an t rest")
  from h have 1: "filter isSetTimeout effs = []"
    using no_timeouts_classify [of c an t email] by simp
  from r Cons.IH have 2: "filter isSetTimeout effs' = []" by simp
  from h r 1 2 show ?case by (cases thrown) simp_all
qed

lemma no_timeouts_backfill [simp]:
  "filter isSetTimeout (backfillMessage c an t lb m) = []"
proof (cases "allPart m")
  case None
  then show ?thesis by (simp add: backfillMessage_def)
next
  case (Some a)
  show ?thesis
  proof (cases a)
    case (Inl e)
    with Some show ?thesis by (simp add: backfillMessage_def isSetTimeout_def)
  next
    case (Inr parsed)
    obtain effs thrown where p: "classifyAndRelocate c an t (toEmailContent m parsed) = (effs, thrown)"
      by (cases "classifyAndRelocate c an t (toEmailContent m parsed)")
    then have "filter isSetTimeout effs = []"
      using no_timeouts_classify [of c an t "toEmailContent m parsed"] by simp
    with Some Inr p show ?thesis
      by (cases thrown) (simp_all add: backfillMessage_def Let_def isSetTimeout_def)
  qed
qed

lemma no_timeouts_scan [simp]:
  "filter isSetTimeout (concat (map (backfillMessage c an t lb) messages)) = []"
  by (induction messages) simp_all

lemma onNewMails_timer [simp]:
  "timerArmed (snd (onNewMails total' n w)) = timerArmed w"
  "timeoutsScheduled (snd (onNewMails total' n w)) = timeoutsScheduled w"
proof -
  show "timerArmed (snd (onNewMails total' n w)) = timerArmed w"
    by (simp add: onNewMails_def Let_def split: option.splits sum.splits prod.splits)
  show "timeoutsScheduled (snd (onNewMails total' n w)) = timeoutsScheduled w"
  proof (cases "connection w")
    case None
    then show ?thesis by (simp add: onNewMails_def)
  next
    case (Some c)
    let ?a = "int total' - int n + 1" and ?b = "int total'"
    show ?thesis
    proof (cases "openBox c")
      case (Inl e)
      with Some show ?thesis
        by (simp add: onNewMails_def fetchEmailsBatch_def timeoutsScheduled_emit isSetTimeout_def)
    next
      case (Inr k)
      show ?thesis
      proof (cases "search c (SeqRange ?a ?b)")
        case (Inl e)
        with Some \<open>openBox c = Inr k\<close> show ?thesis
          by (simp add: onNewMails_def fetchEmailsBatch_def timeoutsScheduled_emit isSetTimeout_def)
      next
        case (Inr messages)
        obtain pe emails where pb: "parseBatch messages = (pe, emails)"
          by (cases "parseBatch messages")
        obtain effs thrown where b:
          "processBatch c (analyzer w) (scamThreshold w) emails = (effs, thrown)"
          by (cases "processBatch c (analyzer w) (scamThreshold w) emails")
        have 1: "filter isSetTimeout pe = []" using no_timeouts_parse [of messages] pb by simp
        have 2: "filter isSetTimeout effs = []"
          using no_timeouts_batch [of c "analyzer w" "scamThreshold w" emails] b by simp
        from Some \<open>openBox c = Inr k\<close> Inr pb b 1 2 show ?thesis
          by (simp add: onNewMails_def fetchEmailsBatch_def timeoutsScheduled_emit isSetTimeout_def)
      qed
    qed
  qed
qed

lemma processHistoricalEmails_timer [simp]:
  "timerArmed (snd (processHistoricalEmails lb w)) = timerArmed w"
  "timeoutsScheduled (snd (processHistoricalEmails lb w)) = timeoutsScheduled w"
  by (simp_all add: processHistoricalEmails_def Let_def timeoutsScheduled_emit isSetTimeout_def
      split: option.splits sum.splits)

lemma updateAnalyzedUntil_timeouts [simp]:
  "timeoutsScheduled (updateAnalyzedUntil env d w) = timeoutsScheduled w"
  by (simp add: updateAnalyzedUntil_def Let_def timeoutsScheduled_emit isSetTimeout_def
      split: fileContent.splits sum.splits option.splits)

lemma backfillRun_timer [simp]:
  "timerArmed (backfillRun env lb w) = timerArmed w"
  "timeoutsScheduled (backfillRun env lb w) = timeoutsScheduled w"
proof -
  obtain thrown w1 where p: "processHistoricalEmails lb w = (thrown, w1)"
    by (cases "processHistoricalEmails lb w")
  then have k: "timerArmed w1 = timerArmed w" "timeoutsScheduled w1 = timeoutsScheduled w"
    using processHistoricalEmails_timer [of lb w] by simp_all
  from p k show "timerArmed (backfillRun env lb w) = timerArmed w"
    by (cases thrown) (simp_all add: backfillRun_def)
  from p k show "timeoutsScheduled (backfillRun env lb w) = timeoutsScheduled w"
    by (cases thrown) (simp_all add: backfillRun_def timeoutsScheduled_emit isSetTimeout_def)
qed

lemma liveMail_timer [simp]:
  "timerArmed (liveMail env total' n w) = timerArmed w"
  "timeoutsScheduled (liveMail env total' n w) = timeoutsScheduled w"
proof -
  let ?w = "emit [Log (NewEmailsReceived n)] w"
  obtain thrown w1 where p: "onNewMails total' n ?w = (thrown, w1)"
    by (cases "onNewMails total' n ?w")
  then have k: "timerArmed w1 = timerArmed w" "timeoutsScheduled w1 = timeoutsScheduled w"
    using onNewMails_timer [of total' n ?w]
    by (simp_all add: timeoutsScheduled_emit isSetTimeout_def)
  from p k show "timerArmed (liveMail env total' n w) = timerArmed w"
    by (cases thrown) (simp_all add: liveMail_def)
  from p k show "timeoutsScheduled (liveMail env total' n w) = timeoutsScheduled w"
    by (cases thrown) (simp_all add: liveMail_def timeoutsScheduled_emit isSetTimeout_def)
qed

lemma mailBegin_timer [simp]:
  "timerArmed (snd (mailBegin env n w)) = timerArmed w"
  "timeoutsScheduled (snd (mailBegin env n w)) = timeoutsScheduled w"
  by (simp_all add: mailBegin_def getTotalMessages_def backfillGuard_def Let_def
      timeoutsScheduled_emit isSetTimeout_def split: option.splits sum.splits)

lemma mailHandler_timer [simp]:
  "timerArmed (mailHandler env n w) = timerArmed w"
  "timeoutsScheduled (mailHandler env n w) = timeoutsScheduled w"
proof -
  obtain st w1 where p: "mailBegin env n w = (st, w1)"
    by (cases "mailBegin env n w")
  then have k: "timerArmed w1 = timerArmed w" "timeoutsScheduled w1 = timeoutsScheduled w"
    using mailBegin_timer [of env n w] by simp_all
  from p k show "timerArmed (mailHandler env n w) = timerArmed w"
    by (cases st) (simp_all add: mailHandler_def)
  from p k show "timeoutsScheduled (mailHandler env n w) = timeoutsScheduled w"
    by (cases st) (simp_all add: mailHandler_def)
qed

lemma stopWatching_timer:
  "\<not> timerArmed w \<Longrightarrow> \<not> timerArmed (stopWatching w)"
  "timeoutsScheduled (stopWatching w) = timeoutsScheduled w"
  by (simp_all add: stopWatching_def Let_def timeoutsScheduled_emit isSetTimeout_def)

lemma exhausted_step:
  assumes "reconnectAttempts w = maxReconnectAttempts" and "\<not> timerArmed w"
    and "\<not> isStartWatching ev"
  shows "reconnectAttempts (step env ev w) = maxReconnectAttempts
         \<and> \<not> timerArmed (step env ev w)
         \<and> timeoutsScheduled (step env ev w) = timeoutsScheduled w"
proof (cases ev)
  case (StartWatching answer)
  with assms(3) show ?thesis by simp
next
  case StopWatching
  with assms(1,2) show ?thesis by (simp add: stopWatching_timer)
next
  case (Mail n)
  with assms(1,2) show ?thesis by simp
next
  case ImapError
  then have f: "failureSignal ev" by simp
  from assms(1) have m: "maxReconnectAttempts \<le> reconnectAttempts w" by simp
  have "reconnectAttempts (step env ev w) = maxReconnectAttempts"
    using ImapError assms(1)
    by (simp add: onImapError_def handleConnectionError_def scheduleReconnection_attempts)
  then show ?thesis using failureSignal_exhausted [OF m f, of env] assms(2) by simp
next
  case (ImapClose hadError)
  from assms(1) have m: "maxReconnectAttempts \<le> reconnectAttempts w" by simp
  have a: "reconnectAttempts (step env ev w) = maxReconnectAttempts"
    using ImapClose assms(1)
    by (simp add: onImapClose_def Let_def handleConnectionError_def scheduleReconnection_attempts)
  show ?thesis
  proof (cases hadError)
    case True
    with ImapClose have f: "failureSignal ev" by simp
    show ?thesis using a failureSignal_exhausted [OF m f, of env] assms(2) by simp
  next
    case False
    with ImapClose assms show ?thesis
      by (simp add: onImapClose_def timeoutsScheduled_emit isSetTimeout_def)
  qed
next
  case KeepAliveTick
  then have f: "failureSignal ev" by simp
  from assms(1) have m: "maxReconnectAttempts \<le> reconnectAttempts w" by simp
  have "reconnectAttempts (step env ev w) = maxReconnectAttempts"
    using KeepAliveTick assms(1)
    by (simp add: onKeepAlive_def handleConnectionError_def scheduleReconnection_attempts
        split: option.splits sum.splits)
  then show ?thesis using failureSignal_exhausted [OF m f, of env] assms(2) by simp
next
  case (ReconnectTimerFires answer)
  with assms(1,2) show ?thesis by (simp add: onReconnectTimer_def)
qed

lemma exhausted_run:
  "reconnectAttempts w = maxReconnectAttempts \<Longrightarrow> \<not> timerArmed w \<Longrightarrow>
   list_all (\<lambda>(env, ev). \<not> isStartWatching ev) evs \<Longrightarrow>
   reconnectAttempts (run evs w) = maxReconnectAttempts
   \<and> \<not> timerArmed (run evs w)
   \<and> timeoutsScheduled (run evs w) = timeoutsScheduled w"
proof (induction evs arbitrary: w)
  case Nil
  then show ?case by simp
next
  case (Cons a evs)
  obtain env ev where a: "a = (env, ev)" by (cases a)
  with Cons.prems(3) have n: "\<not> isStartWatching ev"
    and r: "list_all (\<lambda>(env, ev). \<not> isStartWatching ev) evs" by simp_all
  from exhausted_step [OF Cons.prems(1,2) n, of env]
  have s: "reconnectAttempts (step env ev w) = maxReconnectAttempts"
    "\<not> timerArmed (step env ev w)"
    "timeoutsScheduled (step env ev w) = timeoutsScheduled w" by simp_all
  from Cons.IH [OF s(1,2) r] s(3) a show ?case by simp
qed

subsection \<open>Classification and relocation\<close>

lemma moveToSpamFolder_classified [simp]:
  "classified (fst (moveToSpamFolder c u)) = []"
  by (simp add: moveToSpamFolder_def Let_def split: sum.splits option.splits)

lemma moveToSpamFolder_relocated:
  "relocated (fst (moveToSpamFolder c u)) = (if isl (getBoxes c) then [] else [u])"
  by (simp add: moveToSpamFolder_def Let_def split: sum.splits option.splits)

lemma classifyAndRelocate_classified [simp]:
  "classified (fst (classifyAndRelocate c an t email)) = [email]"
proof (cases "moveToSpamFolder c (uid email)")
  case (Pair effs thrown)
  then have "classified effs = []"
    using moveToSpamFolder_classified [of c "uid email"] by simp
  with Pair show ?thesis by (simp add: classifyAndRelocate_def Let_def)
qed

lemma classifyAndRelocate_relocated:
  "relocated (fst (classifyAndRelocate c an t email)) =
     (if t \<le> scam_probability (isScamEmail an email) \<and> \<not> isl (getBoxes c)
      then [uid email] else [])"
proof (cases "moveToSpamFolder c (uid email)")
  case (Pair effs thrown)
  then have "relocated effs = (if isl (getBoxes c) then [] else [uid email])"
    using moveToSpamFolder_relocated [of c "uid email"] by simp
  with Pair show ?thesis by (simp add: classifyAndRelocate_def Let_def)
qed

lemma parseBatch_Cons:
  "snd (parseBatch (m # ms)) =
     (case allPart m of
        Some (Inr parsed) \<Rightarrow> toEmailContent m parsed # snd (parseBatch ms)
      | _ \<Rightarrow> snd (parseBatch ms))"
  by (simp split: prod.splits option.splits sum.splits)

lemma backfillMessage_classified:
  "classified (backfillMessage c an t lb m) =
     (case allPart m of
        Some (Inr parsed) \<Rightarrow>
          if date (toEmailContent m parsed) < lb then [] else [toEmailContent m parsed]
      | _ \<Rightarrow> [])"
proof (cases "allPart m")
  case None
  then show ?thesis by (simp add: backfillMessage_def)
next
  case (Some a)
  show ?thesis
  proof (cases a)
    case (Inl e)
    with Some show ?thesis by (simp add: backfillMessage_def)
  next
    case (Inr parsed)
    obtain effs thrown where p: "classifyAndRelocate c an t (toEmailContent m parsed) = (effs, thrown)"
      by (cases "classifyAndRelocate c an t (toEmailContent m parsed)")
    then have "classified effs = [toEmailContent m parsed]"
      using classifyAndRelocate_classified [of c an t "toEmailContent m parsed"] by simp
    with Some Inr p show ?thesis
      by (cases thrown) (simp_all add: backfillMessage_def Let_def)
  qed
qed

lemma backfill_classified:
  "classified (concat (map (backfillMessage c an t lb) messages)) =
     filter (\<lambda>email. lb \<le> date email) (snd (parseBatch messages))"
proof (induction messages)
  case Nil
  show ?case by simp
next
  case (Cons m ms)
  have "classified (concat (map (backfillMessage c an t lb) (m # ms))) =
          classified (backfillMessage c an t lb m) @
          classified (concat (map (backfillMessage c an t lb) ms))"
    by simp
  also have "\<dots> = classified (backfillMessage c an t lb m) @
                    filter (\<lambda>email. lb \<le> date email) (snd (parseBatch ms))"
    by (simp only: Cons.IH)
  also have "\<dots> = filter (\<lambda>email. lb \<le> date email) (snd (parseBatch (m # ms)))"
    by (simp only: backfillMessage_classified parseBatch_Cons)
       (simp split: option.splits sum.splits)
  finally show ?case .
qed

lemma processHistoricalEmails_trace:
  "connection w = Some c \<Longrightarrow> openBox c = Inr totalMessages \<Longrightarrow> search c (Since lb) = Inr messages \<Longrightarrow>
   processHistoricalEmails lb w =
     (None, emit ([OpenBox, Log (SearchingSince lb), Search (Since lb),
                   Log (FoundMessages (length messages))] @
                  concat (map (backfillMessage c (analyzer w) (scamThreshold w) lb) messages)) w)"
  by (simp add: processHistoricalEmails_def Let_def)

lemma backfillMessage_skip:
  "allPart m = Some (Inr parsed) \<Longrightarrow> emailDate m parsed < lb \<Longrightarrow>
   backfillMessage c an t lb m =
     [Log (SkippingOlder (emailDate m parsed) (subject (toEmailContent m parsed)))]"
  by (simp add: backfillMessage_def Let_def toEmailContent_def)

lemma moveToSpamFolder_ok_relocated:
  "snd (moveToSpamFolder c u) = None \<Longrightarrow> relocated (fst (moveToSpamFolder c u)) = [u]"
  by (simp add: moveToSpamFolder_def Let_def split: sum.splits option.splits)

lemma classifyAndRelocate_above:
  "t \<le> scam_probability (isScamEmail an email) \<Longrightarrow>
   classifyAndRelocate c an t email =
     ([Log (Analyzing (subject email)), IsScamEmail email,
       Log (ScamDetected (scam_probability (isScamEmail an email)) (subject email))] @
      fst (moveToSpamFolder c (uid email)),
      snd (moveToSpamFolder c (uid email)))"
  by (simp add: classifyAndRelocate_def Let_def split: prod.splits)

lemma classifyAndRelocate_below:
  "scam_probability (isScamEmail an email) < t \<Longrightarrow>
   classifyAndRelocate c an t email =
     ([Log (Analyzing (subject email)), IsScamEmail email, Log (Legitimate (subject email))], None)"
  by (simp add: classifyAndRelocate_def Let_def)

lemma classifyAndRelocate_ok_relocated:
  "snd (classifyAndRelocate c an t email) = None \<Longrightarrow>
   relocated (fst (classifyAndRelocate c an t email)) =
     (if t \<le> scam_probability (isScamEmail an email) then [uid email] else [])"
proof (cases "t \<le> scam_probability (isScamEmail an email)")
  case True
  assume "snd (classifyAndRelocate c an t email) = None"
  with True have "snd (moveToSpamFolder c (uid email)) = None"
    by (simp add: classifyAndRelocate_above)
  then have "relocated (fst (moveToSpamFolder c (uid email))) = [uid email]"
    by (rule moveToSpamFolder_ok_relocated)
  with True show ?thesis by (simp add: classifyAndRelocate_above)
next
  case False
  then show ?thesis by (simp add: classifyAndRelocate_below)
qed

lemma processBatch_ok:
  "snd (processBatch c an t emails) = None \<Longrightarrow>
   classified (fst (processBatch c an t emails)) = emails
   \<and> relocated (fst (processBatch c an t emails)) =
       map uid (filter (\<lambda>email. t \<le> scam_probability (isScamEmail an email)) emails)"
proof (induction emails)
  case Nil
  show ?case by simp
next
  case (Cons email rest)
  obtain effs thrown where h: "classifyAndRelocate c an t email = (effs, thrown)"
    by (cases "classifyAndRelocate c an t email")
  obtain effs' thrown' where r: "processBatch c an t rest = (effs', thrown')"
    by (cases "processBatch c an t rest")
  from Cons.prems h r have n: "thrown = None" "thrown' = None"
    by (cases thrown; simp)+
  from h n have 1: "classified effs = [email]"
    "relocated effs = (if t \<le> scam_probability (isScamEmail an email) then [uid email] else [])"
    using classifyAndRelocate_classified [of c an t email]
      classifyAndRelocate_ok_relocated [of c an t email] by simp_all
  from r n Cons.IH have 2: "classified effs' = rest"
    "relocated effs' = map uid (filter (\<lambda>email. t \<le> scam_probability (isScamEmail an email)) rest)"
    by simp_all
  from h r n 1 2 show ?case by simp
qed

lemma backfillMessage_relocated:
  "getBoxes c = Inr tree \<Longrightarrow>
   relocated (backfillMessage c an t lb m) =
     (case allPart m of
        Some (Inr parsed) \<Rightarrow>
          if lb \<le> date (toEmailContent m parsed)
             \<and> t \<le> scam_probability (isScamEmail an (toEmailContent m parsed))
          then [uid (toEmailContent m parsed)] else []
      | _ \<Rightarrow> [])"
proof (cases "allPart m")
  case None
  then show ?thesis by (simp add: backfillMessage_def)
next
  case (Some a)
  assume g: "getBoxes c = Inr tree"
  show ?thesis
  proof (cases a)
    case (Inl e)
    with Some show ?thesis by (simp add: backfillMessage_def)
  next
    case (Inr parsed)
    let ?email = "toEmailContent m parsed"
    obtain effs thrown where p: "classifyAndRelocate c an t ?email = (effs, thrown)"
      by (cases "classifyAndRelocate c an t ?email")
    then have "relocated effs =
        (if t \<le> scam_probability (isScamEmail an ?email) then [uid ?email] else [])"
      using classifyAndRelocate_relocated [of c an t ?email] g by simp
    with Some Inr p show ?thesis
      by (cases thrown) (simp_all add: backfillMessage_def Let_def)
  qed
qed

lemma backfill_relocated:
  "getBoxes c = Inr tree \<Longrightarrow>
   relocated (concat (map (backfillMessage c an t lb) messages)) =
     map uid (filter (\<lambda>email. lb \<le> date email \<and> t \<le> scam_probability (isScamEmail an email))
                (snd (parseBatch messages)))"
proof (induction messages)
  case Nil
  show ?case by simp
next
  case (Cons m ms)
  then have ih: "relocated (concat (map (backfillMessage c an t lb) ms)) =
     map uid (filter (\<lambda>email. lb \<le> date email \<and> t \<le> scam_probability (isScamEmail an email))
                (snd (parseBatch ms)))" by simp
  have "relocated (concat (map (backfillMessage c an t lb) (m # ms))) =
          relocated (backfillMessage c an t lb m) @
          relocated (concat (map (backfillMessage c an t lb) ms))"
    by simp
  also have "\<dots> = map uid (filter (\<lambda>email. lb \<le> date email \<and> t \<le> scam_probability (isScamEmail an email))
                (snd (parseBatch (m # ms))))"
    by (simp only: ih backfillMessage_relocated [OF Cons.prems] parseBatch_Cons)
       (simp split: option.splits sum.splits)
  finally show ?case .
qed

subsection \<open>The handler of new mail, the watermark and the guard\<close>

lemma mailHandler_no_connection: "connection w = None \<Longrightarrow> mailHandler env n w = w"
  by (simp add: mailHandler_def mailBegin_def)

lemma mailBegin_initial:
  "connection w = Some c \<Longrightarrow> openBox c = Inr n \<Longrightarrow>
   mailBegin env n w = backfillGuard n (emit [OpenBox] w)"
  by (simp add: mailBegin_def getTotalMessages_def)

lemma mailHandler_live:
  assumes "connection w = Some c" and "openBox c = Inr totalMessages" and "n \<noteq> totalMessages"
    and "search c (SeqRange (int totalMessages - int n + 1) (int totalMessages)) = Inr messages"
    and "snd (processBatch c (analyzer w) (scamThreshold w) (snd (parseBatch messages))) = None"
  shows "mailHandler env n w =
     updateAnalyzedUntil env (dayjsNow env)
       (emit ([OpenBox, Log (NewEmailsReceived n), OpenBox, Log SearchingForEmails,
               Search (SeqRange (int totalMessages - int n + 1) (int totalMessages))] @
              fst (parseBatch messages) @
              fst (processBatch c (analyzer w) (scamThreshold w) (snd (parseBatch messages)))) w)"
proof -
  obtain pe emails where pb: "parseBatch messages = (pe, emails)"
    by (cases "parseBatch messages")
  obtain effs thrown where b: "processBatch c (analyzer w) (scamThreshold w) emails = (effs, thrown)"
    by (cases "processBatch c (analyzer w) (scamThreshold w) emails")
  from assms(5) pb b have n: "thrown = None" by simp
  have f: "fetchEmailsBatch c (int totalMessages - int n + 1) (int totalMessages) =
      ([OpenBox, Log SearchingForEmails,
        Search (SeqRange (int totalMessages - int n + 1) (int totalMessages))] @ pe, Inr emails)"
    using assms(2,4) pb by (simp add: fetchEmailsBatch_def)
  have "onNewMails totalMessages n (emit [OpenBox, Log (NewEmailsReceived n)] w) =
      (None, emit ([OpenBox, Log (NewEmailsReceived n), OpenBox, Log SearchingForEmails,
               Search (SeqRange (int totalMessages - int n + 1) (int totalMessages))] @ pe @ effs) w)"
    using assms(1) f b n by (simp add: onNewMails_def emit_emit)
  then show ?thesis
    using assms(1,2,3) pb b
    by (simp add: mailHandler_def mailBegin_def getTotalMessages_def liveMail_def emit_emit)
qed

lemma updateAnalyzedUntil_failure:
  "persistenceFails env w e \<Longrightarrow>
   emailsAnalyzedUntil (updateAnalyzedUntil env d w) = emailsAnalyzedUntil w
   \<and> last (trace (updateAnalyzedUntil env d w)) = Log (PersistFailed e)"
  by (auto simp: persistenceFails_def updateAnalyzedUntil_def Let_def
      split: fileContent.splits sum.splits option.splits)

lemma updateAnalyzedUntil_success:
  "persistenceSucceeds env w \<Longrightarrow>
   emailsAnalyzedUntil (updateAnalyzedUntil env d w) = Some d"
  by (auto simp: persistenceSucceeds_def updateAnalyzedUntil_def Let_def
      split: fileContent.splits sum.splits option.splits)

lemma updateAnalyzedUntil_watermark:
  "emailsAnalyzedUntil (updateAnalyzedUntil env d w) =
     (if persistenceSucceeds env w then Some d else emailsAnalyzedUntil w)"
  by (simp add: persistenceSucceeds_def updateAnalyzedUntil_def Let_def
      split: fileContent.splits sum.splits option.splits)

lemma closed_guard_clears_flag:
  "connection w = Some c \<Longrightarrow> openBox c = Inr n \<Longrightarrow> isBackfilling w \<Longrightarrow>
   fst (mailBegin env n w) = Returned \<and> \<not> isBackfilling (snd (mailBegin env n w))"
  by (simp add: mailBegin_def getTotalMessages_def backfillGuard_def Let_def)

lemma open_guard_starts_scan:
  "connection w = Some c \<Longrightarrow> openBox c = Inr n \<Longrightarrow> \<not> isBackfilling w \<Longrightarrow>
   (\<exists>lb. fst (mailBegin env n w) = AwaitingBackfill lb) \<and> isBackfilling (snd (mailBegin env n w))"
  by (simp add: mailBegin_def getTotalMessages_def backfillGuard_def Let_def)

subsection \<open>The quarantine folder\<close>

lemma findTarget_first_matching_candidate:
  "findTarget cands allBoxes =
     (case find (\<lambda>c. exactMatch allBoxes c \<noteq> None \<or> trailingMatch allBoxes c \<noteq> None) cands of
        None \<Rightarrow> None
      | Some c \<Rightarrow> (case exactMatch allBoxes c of
                     Some exact \<Rightarrow> Some exact
                   | None \<Rightarrow> trailingMatch allBoxes c))"
  by (induction cands) (auto split: option.splits)

lemma exactMatch_sound:
  "exactMatch allBoxes c = Some b \<Longrightarrow> b \<in> set allBoxes \<and> toLowerCase b = toLowerCase c"
  by (auto simp: exactMatch_def lowerToOriginal_def split: option.splits if_splits
      dest!: map_of_SomeD)

lemma trailingMatch_sound:
  "trailingMatch allBoxes c = Some b \<Longrightarrow>
     b \<in> set allBoxes \<and> endsWith (toLowerCase b) (''/'' @ toLowerCase c)"
  by (auto simp: trailingMatch_def find_Some_iff)

lemma moveToSpamFolder_creates:
  "getBoxes conn = Inr tree \<Longrightarrow> findTarget candidates (flattenBoxes tree []) = None \<Longrightarrow>
   fst (moveToSpamFolder conn u) =
     [GetBoxes, AddBox ''Spam'', MoveMessage u ''Spam'',
      Log (case moveMessage conn u ''Spam'' of
             None \<Rightarrow> Moved u ''Spam'' | Some e \<Rightarrow> MoveFailed u e)]"
  by (simp add: moveToSpamFolder_def Let_def split: option.splits)

lemma moveToSpamFolder_found:
  "getBoxes conn = Inr tree \<Longrightarrow> findTarget candidates (flattenBoxes tree []) = Some target \<Longrightarrow>
   moveToSpamFolder conn u =
     ([GetBoxes, MoveMessage u target,
       Log (case moveMessage conn u target of
              None \<Rightarrow> Moved u target | Some e \<Rightarrow> MoveFailed u e)],
      moveMessage conn u target)"
  by (simp add: moveToSpamFolder_def Let_def split: option.splits)

lemma moveToSpamFolder_created_result:
  "getBoxes conn = Inr tree \<Longrightarrow> findTarget candidates (flattenBoxes tree []) = None \<Longrightarrow>
   snd (moveToSpamFolder conn u) = moveMessage conn u ''Spam''"
  by (simp add: moveToSpamFolder_def Let_def split: option.splits)

lemma moveToSpamFolder_no_boxes:
  "getBoxes conn = Inl e \<Longrightarrow>
   moveToSpamFolder conn u = ([GetBoxes, Log (MoveFailed u e)], Some e)"
  by (simp add: moveToSpamFolder_def)

subsection \<open>The concrete account evaluated\<close>

lemma exhausted_fields:
  "reconnectAttempts (run fiveFailures (newWatcher exampleOptions)) = 5"
  "timerArmed (run fiveFailures (newWatcher exampleOptions)) = False"
  "isReconnecting (run fiveFailures (newWatcher exampleOptions)) = False"
  "isWatching (run fiveFailures (newWatcher exampleOptions)) = False"
  "timeoutsScheduled (run fiveFailures (newWatcher exampleOptions)) = 5"
  "last (trace (run fiveFailures (newWatcher exampleOptions))) = Log MaxAttemptsReached"
  by (simp_all add: fiveFailures_def refused_def newWatcher_def exampleOptions_def
      exampleEnvironment_def startWatching_def onReconnectTimer_def connect_def
      scheduleReconnection_def reconnectDelay_def emit_def Let_def
      maxReconnectAttempts_def initialReconnectDelay_def AUTHORIZATION_FAILED_KEY_def
      timeoutsScheduled_def isSetTimeout_def)

lemma watching_fields:
  "\<not> isl (openBox c) \<Longrightarrow> connection (watching c) = Some c"
  "analyzer (watching c) = exampleAnalyzer"
  "scamThreshold (watching c) = 80"
  "\<not> isl (openBox c) \<Longrightarrow> trace (watching c) =
     [Log Connecting, ImapConnect, RegisterHandlers, OpenBox, Log ConnectedInbox, SetInterval,
      Log WatcherActive]"
  "isBackfilling (watching c) = False"
  "emailsAnalyzedUntil (watching c) = Some 1000"
  "configPath (watching c) = Some ''accounts.json''"
  "accountUser (watching c) = Some ''a@b.c''"
  "label (watching c) = Some ''Yahoo''"
  by (auto simp: watching_def startWatching_def newWatcher_def exampleOptions_def connect_def
      Let_def startKeepAlive_def stopKeepAlive_def emit_def exampleEnvironment_def
      scheduleReconnection_def stopWatching_def cleanupConnection_def
      split: sum.splits option.splits)

lemma example_mails:
  "allPart mailOne = Some (Inr (parsedAt 5000 ''One''))"
  "allPart mailTwo = Some (Inr (parsedAt 6000 ''Two''))"
  "allPart oldMail = Some (Inr (parsedAt 500 ''Old''))"
  "allPart brokenMail = Some (Inl (Error None))"
  "emailDate mailOne (parsedAt 5000 ''One'') = 5000"
  "emailDate mailTwo (parsedAt 6000 ''Two'') = 6000"
  "emailDate oldMail (parsedAt 500 ''Old'') = 500"
  "uid emailOne = 101" "uid emailTwo = 102" "date emailOne = 5000" "date emailTwo = 6000"
  "subject emailOne = ''One''" "subject emailTwo = ''Two''"
  "toEmailContent mailOne (parsedAt 5000 ''One'') = emailOne"
  "toEmailContent mailTwo (parsedAt 6000 ''Two'') = emailTwo"
  by (simp_all add: mailOne_def mailTwo_def oldMail_def brokenMail_def emailDate_def parsedAt_def
      emailOne_def emailTwo_def toEmailContent_def orElse_def)

lemma example_connections:
  "openBox exampleConnection = Inr 5" "openBox failingMoveConnection = Inr 5"
  "openBox brokenMailConnection = Inr 5" "openBox oldMailConnection = Inr 5"
  "openBox emptyBoxesConnection = Inr 5"
  "search exampleConnection cr = Inr [mailOne, mailTwo]"
  "search failingMoveConnection cr = Inr [mailOne, mailTwo]"
  "search brokenMailConnection cr = Inr [brokenMail, mailTwo]"
  "search oldMailConnection cr = Inr [mailTwo, oldMail]"
  "getBoxes exampleConnection = Inr nestedJunkTree"
  "getBoxes failingMoveConnection = Inr nestedJunkTree"
  "getBoxes brokenMailConnection = Inr nestedJunkTree"
  "getBoxes oldMailConnection = Inr nestedJunkTree"
  "getBoxes emptyBoxesConnection = Inr []"
  "moveMessage exampleConnection u target = None"
  "moveMessage brokenMailConnection u target = None"
  "moveMessage oldMailConnection u target = None"
  "moveMessage emptyBoxesConnection u target = None"
  "moveMessage failingMoveConnection u target = (if u = 101 then Some (Error None) else None)"
  by (simp_all add: exampleConnection_def failingMoveConnection_def brokenMailConnection_def
      oldMailConnection_def emptyBoxesConnection_def)

lemma nestedJunk_target:
  "findTarget candidates (flattenBoxes nestedJunkTree []) = Some ''INBOX/Junk''"
  by (simp add: nestedJunkTree_def candidates_def exactMatch_def trailingMatch_def
      lowerToOriginal_def toLowerCase_def lowerChar_def endsWith_def)

lemma example_moves:
  "moveToSpamFolder exampleConnection u =
     ([GetBoxes, MoveMessage u ''INBOX/Junk'', Log (Moved u ''INBOX/Junk'')], None)"
  "moveToSpamFolder brokenMailConnection u =
     ([GetBoxes, MoveMessage u ''INBOX/Junk'', Log (Moved u ''INBOX/Junk'')], None)"
  "moveToSpamFolder oldMailConnection u =
     ([GetBoxes, MoveMessage u ''INBOX/Junk'', Log (Moved u ''INBOX/Junk'')], None)"
  "moveToSpamFolder failingMoveConnection 101 =
     ([GetBoxes, MoveMessage 101 ''INBOX/Junk'', Log (MoveFailed 101 (Error None))], Some (Error None))"
  "moveToSpamFolder failingMoveConnection 102 =
     ([GetBoxes, MoveMessage 102 ''INBOX/Junk'', Log (Moved 102 ''INBOX/Junk'')], None)"
  by (simp_all add: moveToSpamFolder_def example_connections nestedJunk_target Let_def)

lemma example_scores:
  "scam_probability (isScamEmail exampleAnalyzer email) = 92"
  by (simp add: isScamEmail_def exampleAnalyzer_def)

lemma example_classify:
  "classifyAndRelocate exampleConnection exampleAnalyzer 80 email =
     ([Log (Analyzing (subject email)), IsScamEmail email, Log (ScamDetected 92 (subject email)),
       GetBoxes, MoveMessage (uid email) ''INBOX/Junk'', Log (Moved (uid email) ''INBOX/Junk'')], None)"
  "classifyAndRelocate failingMoveConnection exampleAnalyzer 80 emailOne =
     ([Log (Analyzing ''One''), IsScamEmail emailOne, Log (ScamDetected 92 ''One''),
       GetBoxes, MoveMessage 101 ''INBOX/Junk'', Log (MoveFailed 101 (Error None))], Some (Error None))"
  "classifyAndRelocate failingMoveConnection exampleAnalyzer 80 emailTwo =
     ([Log (Analyzing ''Two''), IsScamEmail emailTwo, Log (ScamDetected 92 ''Two''),
       GetBoxes, MoveMessage 102 ''INBOX/Junk'', Log (Moved 102 ''INBOX/Junk'')], None)"
  "classifyAndRelocate brokenMailConnection exampleAnalyzer 80 emailTwo =
     ([Log (Analyzing ''Two''), IsScamEmail emailTwo, Log (ScamDetected 92 ''Two''),
       GetBoxes, MoveMessage 102 ''INBOX/Junk'', Log (Moved 102 ''INBOX/Junk'')], None)"
  by (simp_all add: classifyAndRelocate_def example_scores example_moves example_mails Let_def)

lemma example_parses:
  "parseBatch [mailOne, mailTwo] = ([], [emailOne, emailTwo])"
  "parseBatch [brokenMail, mailTwo] = ([Log (ParseFailed (Error None))], [emailTwo])"
  by (simp_all add: example_mails)

lemma example_batch:
  "processBatch exampleConnection exampleAnalyzer 80 [emailOne, emailTwo] =
     ([Log (Analyzing ''One''), IsScamEmail emailOne, Log (ScamDetected 92 ''One''),
       GetBoxes, MoveMessage 101 ''INBOX/Junk'', Log (Moved 101 ''INBOX/Junk''),
       Log (Analyzing ''Two''), IsScamEmail emailTwo, Log (ScamDetected 92 ''Two''),
       GetBoxes, MoveMessage 102 ''INBOX/Junk'', Log (Moved 102 ''INBOX/Junk'')], None)"
  by (simp add: example_classify example_mails)

lemma example_persistence:
  "persistenceFails failingWriteEnvironment (watching exampleConnection) (Error None)"
  "persistenceSucceeds exampleEnvironment (watching exampleConnection)"
  by (simp_all add: persistenceFails_def persistenceSucceeds_def failingWriteEnvironment_def
      exampleEnvironment_def watching_fields truthy_def)

lemma first_trigger:
  "deliver env (MailEvent 5) (watching exampleConnection, []) =
     (emit [OpenBox, Log (InitialCount 5), Log (BackfillLowerBound 1000)]
        ((watching exampleConnection)\<lparr>isBackfilling := True\<rparr>), [1000])"
  by (simp add: mailBegin_def getTotalMessages_def backfillGuard_def Let_def watching_fields
      example_connections emit_def)

lemma example_trees:
  "flattenBoxes nestedSpamTree [] = [''INBOX'', ''INBOX/Spam'', ''Junk'']"
  "flattenBoxes nestedJunkTree [] = [''INBOX'', ''INBOX/Junk'']"
  by (simp_all add: nestedSpamTree_def nestedJunkTree_def)

lemma example_matches:
  "exactMatch [''INBOX'', ''INBOX/Spam'', ''Junk''] ''spam'' = None"
  "trailingMatch [''INBOX'', ''INBOX/Spam'', ''Junk''] ''spam'' = Some ''INBOX/Spam''"
  "exactMatch [''INBOX'', ''INBOX/Spam'', ''Junk''] ''junk'' = Some ''Junk''"
  "exactMatch [''INBOX'', ''INBOX/Junk''] ''spam'' = None"
  "trailingMatch [''INBOX'', ''INBOX/Junk''] ''spam'' = None"
  "exactMatch [''INBOX'', ''INBOX/Junk''] ''junk'' = None"
  "trailingMatch [''INBOX'', ''INBOX/Junk''] ''junk'' = Some ''INBOX/Junk''"
  "exactMatch [''Junk''] ''junk'' = Some ''Junk''"
  "trailingMatch [] c = None"
  "exactMatch [] c = None"
  by (simp_all add: exactMatch_def trailingMatch_def lowerToOriginal_def toLowerCase_def
      lowerChar_def endsWith_def)

section \<open>The claims about the watcher\<close>

text \<open>
  Claim C1. At most one backfill scan is in flight at any time: a notification whose count
  equals the total, arriving while a scan runs, is ignored, and the flag \<open>isBackfilling\<close>
  stays set until the running scan completes.

  The handler does ignore the second notification, but its \<open>finally\<close> clears the flag
  while the first scan is still in flight (\<open>closed_guard_clears_flag\<close>), so a third
  notification finds the guard open. Below, three notifications of the count 5 reach a
  watcher whose INBOX holds 5 messages and no scan completes in between: after the first
  one scan is in flight and the flag is set, after the second the flag is clear with that
  scan still in flight, after the third two scans are in flight.
\<close>

theorem third_trigger_starts_second_scan:
  "snd (deliverAll exampleEnvironment [MailEvent 5] (watching exampleConnection, [])) = [1000]
   \<and> isBackfilling (fst (deliverAll exampleEnvironment [MailEvent 5]
        (watching exampleConnection, [])))
   \<and> snd (deliverAll exampleEnvironment [MailEvent 5, MailEvent 5]
        (watching exampleConnection, [])) = [1000]
   \<and> \<not> isBackfilling (fst (deliverAll exampleEnvironment [MailEvent 5, MailEvent 5]
        (watching exampleConnection, [])))
   \<and> snd (deliverAll exampleEnvironment [MailEvent 5, MailEvent 5, MailEvent 5]
        (watching exampleConnection, [])) = [1000, 1000]"
  by (simp add: first_trigger mailBegin_def getTotalMessages_def backfillGuard_def Let_def
      watching_fields example_connections)

text \<open>
  Claim C2. In a batch of live new mail and in a backfill scan, an error while one message
  is classified or relocated does not abort the batch: it is logged and the next message
  is processed.

  The loop of \<open>onNewMails\<close> has no \<open>try\<close> of its own. Below, a batch of two mails
  scores 92 against the threshold 80 and the server refuses to move the first: the batch
  ends with that error, the second mail is never classified, and the handler logs the
  error of the whole batch. The backfill loop over the same two messages on the same
  server classifies both.
\<close>

theorem live_batch_stops_at_failed_relocation:
  "snd (processBatch failingMoveConnection exampleAnalyzer 80 [emailOne, emailTwo]) = Some (Error None)
   \<and> classified (fst (processBatch failingMoveConnection exampleAnalyzer 80 [emailOne, emailTwo])) = [emailOne]
   \<and> classified (trace (mailHandler exampleEnvironment 2 (watching failingMoveConnection))) = [emailOne]
   \<and> last (trace (mailHandler exampleEnvironment 2 (watching failingMoveConnection))) =
        Log (NewEmailsError (Error None))
   \<and> classified (concat (map (backfillMessage failingMoveConnection exampleAnalyzer 80 0)
        [mailOne, mailTwo])) = [emailOne, emailTwo]"
  by (simp add: example_classify example_mails example_connections watching_fields
      mailHandler_def mailBegin_def getTotalMessages_def liveMail_def onNewMails_def
      fetchEmailsBatch_def backfillMessage_def Let_def)

text \<open>
  Claim C3, as amended. When a persistence attempt fails (the read, the parse, the search
  of the account or the write throws), the failure is logged and the watermark in memory,
  \<open>emailsAnalyzedUntil\<close>, keeps its old value. The watermark is advanced to the new
  instant when the account is found and the write returns, and only then: on every other
  path, the throws and the three returns without a write (no \<open>configPath\<close>, a file that
  is not an array, no entry for the account), it keeps its old value.
\<close>

theorem watermark_advances_only_after_write:
  "(persistenceFails env w e \<longrightarrow>
      emailsAnalyzedUntil (updateAnalyzedUntil env d w) = emailsAnalyzedUntil w
      \<and> last (trace (updateAnalyzedUntil env d w)) = Log (PersistFailed e))
   \<and> (persistenceSucceeds env' w' \<longrightarrow>
      emailsAnalyzedUntil (updateAnalyzedUntil env' d' w') = Some d')
   \<and> emailsAnalyzedUntil (updateAnalyzedUntil env0 d0 w0) =
       (if persistenceSucceeds env0 w0 then Some d0 else emailsAnalyzedUntil w0)"
proof -
  have fails: "persistenceFails env w e \<longrightarrow>
      emailsAnalyzedUntil (updateAnalyzedUntil env d w) = emailsAnalyzedUntil w
      \<and> last (trace (updateAnalyzedUntil env d w)) = Log (PersistFailed e)"
    using updateAnalyzedUntil_failure [of env w e d] by (rule impI)
  have succeeds: "persistenceSucceeds env' w' \<longrightarrow>
      emailsAnalyzedUntil (updateAnalyzedUntil env' d' w') = Some d'"
    using updateAnalyzedUntil_success [of env' w' d'] by (rule impI)
  have always: "emailsAnalyzedUntil (updateAnalyzedUntil env0 d0 w0) =
       (if persistenceSucceeds env0 w0 then Some d0 else emailsAnalyzedUntil w0)"
    by (rule updateAnalyzedUntil_watermark)
  show ?thesis
    by (intro conjI) (rule fails, rule succeeds, rule always)
qed

text \<open>
  Claim C3 as stated says that the watermark in memory is advanced although the write
  fails. The write throws below, and the watermark stays at 1000 instead of moving to
  10000.
\<close>

theorem failed_write_leaves_watermark:
  "writeThrows failingWriteEnvironment = Some (Error None)
   \<and> emailsAnalyzedUntil (watching exampleConnection) = Some 1000
   \<and> emailsAnalyzedUntil
        (updateAnalyzedUntil failingWriteEnvironment 10000 (watching exampleConnection)) = Some 1000"
  using updateAnalyzedUntil_failure [OF example_persistence(1), of 10000]
  by (simp add: watching_fields failingWriteEnvironment_def)

text \<open>
  The same account with a write that throws, with one that returns, and with a
  configuration file that is not an array.
\<close>

theorem watermark_advances_only_after_write_witness:
  "persistenceFails failingWriteEnvironment (watching exampleConnection) (Error None)
   \<and> emailsAnalyzedUntil
        (updateAnalyzedUntil failingWriteEnvironment 10000 (watching exampleConnection)) = Some 1000
   \<and> last (trace (updateAnalyzedUntil failingWriteEnvironment 10000 (watching exampleConnection))) =
        Log (PersistFailed (Error None))
   \<and> persistenceSucceeds exampleEnvironment (watching exampleConnection)
   \<and> emailsAnalyzedUntil
        (updateAnalyzedUntil exampleEnvironment 10000 (watching exampleConnection)) = Some 10000
   \<and> \<not> persistenceSucceeds (exampleEnvironment\<lparr>configFile := NotArray\<rparr>)
         (watching exampleConnection)
   \<and> emailsAnalyzedUntil
        (updateAnalyzedUntil (exampleEnvironment\<lparr>configFile := NotArray\<rparr>) 10000
           (watching exampleConnection)) = Some 1000"
proof -
  have silent: "\<not> persistenceSucceeds (exampleEnvironment\<lparr>configFile := NotArray\<rparr>)
                   (watching exampleConnection)"
    by (simp add: persistenceSucceeds_def)
  show ?thesis
    using silent
      watermark_advances_only_after_write [of failingWriteEnvironment "watching exampleConnection"
        "Error None" 10000 exampleEnvironment "watching exampleConnection" 10000
        "exampleEnvironment\<lparr>configFile := NotArray\<rparr>" 10000 "watching exampleConnection"]
    by (simp add: example_persistence watching_fields)
qed

text \<open>
  Claim C4, as amended. Without a connection the handler returns at once. With a
  connection whose total query answers \<open>T\<close>: a notification of the count \<open>T\<close> goes to
  the guard of the backfill; a notification of another count \<open>N\<close> searches exactly the
  sequence range from \<open>T - N + 1\<close> to \<open>T\<close> and, when the search answers and no
  relocation throws, runs classification and relocation over every message of the answer
  that parsed, in order, before the watermark is updated and the handler returns.
\<close>

theorem mail_handler_routes_by_count:
  "(connection w0 = None \<longrightarrow> mailHandler env0 n0 w0 = w0)
   \<and> (connection w1 = Some c1 \<and> openBox c1 = Inr n1 \<longrightarrow>
        mailBegin env1 n1 w1 = backfillGuard n1 (emit [OpenBox] w1))
   \<and> (connection w = Some c \<and> openBox c = Inr totalMessages \<and> n \<noteq> totalMessages
        \<and> search c (SeqRange (int totalMessages - int n + 1) (int totalMessages)) = Inr messages
        \<and> snd (processBatch c (analyzer w) (scamThreshold w) (snd (parseBatch messages))) = None
      \<longrightarrow>
        mailHandler env n w =
          updateAnalyzedUntil env (dayjsNow env)
            (emit ([OpenBox, Log (NewEmailsReceived n), OpenBox, Log SearchingForEmails,
                    Search (SeqRange (int totalMessages - int n + 1) (int totalMessages))] @
                   fst (parseBatch messages) @
                   fst (processBatch c (analyzer w) (scamThreshold w) (snd (parseBatch messages)))) w)
        \<and> classified (fst (processBatch c (analyzer w) (scamThreshold w) (snd (parseBatch messages))))
            = snd (parseBatch messages))"
  using mailHandler_no_connection [of w0 env0 n0] mailBegin_initial [of w1 c1 n1 env1]
    mailHandler_live [of w c totalMessages n messages env]
    processBatch_ok [of c "analyzer w" "scamThreshold w" "snd (parseBatch messages)"]
  by blast

text \<open>
  Claim C4 as stated holds for every notification and every message of the batch. A
  watcher without a connection makes no query at all; and of the two messages the search
  for the range 4 to 5 returns below, the one whose body does not parse never reaches the
  classifier.
\<close>

theorem mail_handler_skips_unparsed_message:
  "connection (newWatcher exampleOptions) = None
   \<and> trace (mailHandler exampleEnvironment 2 (newWatcher exampleOptions)) = []
   \<and> search brokenMailConnection (SeqRange 4 5) = Inr [brokenMail, mailTwo]
   \<and> classified (trace (mailHandler exampleEnvironment 2 (watching brokenMailConnection))) = [emailTwo]"
  by (simp add: example_classify example_mails example_connections watching_fields
      mailHandler_def mailBegin_def getTotalMessages_def liveMail_def onNewMails_def
      fetchEmailsBatch_def Let_def newWatcher_def updateAnalyzedUntil_def exampleEnvironment_def
      truthy_def)

text \<open>
  A watcher with no connection, and a connected one that receives the count 5 of a box of
  5 messages, then the count 2.
\<close>

theorem mail_handler_routes_by_count_witness:
  "connection (newWatcher exampleOptions) = None
   \<and> mailHandler exampleEnvironment 2 (newWatcher exampleOptions) = newWatcher exampleOptions
   \<and> connection (watching exampleConnection) = Some exampleConnection
   \<and> openBox exampleConnection = Inr 5
   \<and> fst (mailBegin exampleEnvironment 5 (watching exampleConnection)) = AwaitingBackfill 1000
   \<and> (2::nat) \<noteq> 5
   \<and> search exampleConnection (SeqRange (int 5 - int 2 + 1) (int 5)) = Inr [mailOne, mailTwo]
   \<and> snd (processBatch exampleConnection exampleAnalyzer 80 (snd (parseBatch [mailOne, mailTwo]))) = None
   \<and> classified (fst (processBatch exampleConnection exampleAnalyzer 80
         (snd (parseBatch [mailOne, mailTwo])))) = [emailOne, emailTwo]
   \<and> classified (trace (mailHandler exampleEnvironment 2 (watching exampleConnection))) =
        [emailOne, emailTwo]"
proof -
  let ?w = "watching exampleConnection"
  note routes = mail_handler_routes_by_count [of "newWatcher exampleOptions" exampleEnvironment 2
      ?w exampleConnection 5 exampleEnvironment ?w exampleConnection 5 2 "[mailOne, mailTwo]"
      exampleEnvironment]
  have h0: "connection (newWatcher exampleOptions) = None"
    by (simp add: newWatcher_def)
  with routes have r0:
    "mailHandler exampleEnvironment 2 (newWatcher exampleOptions) = newWatcher exampleOptions"
    by blast
  have h1: "connection ?w = Some exampleConnection" "openBox exampleConnection = Inr 5"
    by (simp_all add: watching_fields example_connections)
  with routes have "mailBegin exampleEnvironment 5 ?w = backfillGuard 5 (emit [OpenBox] ?w)"
    by blast
  then have r1: "fst (mailBegin exampleEnvironment 5 ?w) = AwaitingBackfill 1000"
    by (simp add: backfillGuard_def Let_def watching_fields)
  have h2: "(2::nat) \<noteq> 5"
    "search exampleConnection (SeqRange (int 5 - int 2 + 1) (int 5)) = Inr [mailOne, mailTwo]"
    "snd (processBatch exampleConnection (analyzer ?w) (scamThreshold ?w)
       (snd (parseBatch [mailOne, mailTwo]))) = None"
    by (simp_all add: example_connections example_parses example_batch watching_fields
        del: parseBatch.simps processBatch.simps)
  with routes h1 have r2:
    "mailHandler exampleEnvironment 2 ?w =
       updateAnalyzedUntil exampleEnvironment (dayjsNow exampleEnvironment)
         (emit ([OpenBox, Log (NewEmailsReceived 2), OpenBox, Log SearchingForEmails,
                 Search (SeqRange (int 5 - int 2 + 1) (int 5))] @
                fst (parseBatch [mailOne, mailTwo]) @
                fst (processBatch exampleConnection (analyzer ?w) (scamThreshold ?w)
                       (snd (parseBatch [mailOne, mailTwo])))) ?w)"
    "classified (fst (processBatch exampleConnection (analyzer ?w) (scamThreshold ?w)
        (snd (parseBatch [mailOne, mailTwo])))) = snd (parseBatch [mailOne, mailTwo])"
    by blast+
  have f: "findIndex w' [Entry (Some ''a@b.c'') (Some ''Yahoo'') (Some 1000)] 0 = Inr (Some 0)"
    if "accountUser w' = Some ''a@b.c''" for w'
    using that by (simp add: truthy_def)
  have r3: "classified (trace (mailHandler exampleEnvironment 2 ?w)) = [emailOne, emailTwo]"
    unfolding r2(1)
    by (simp add: updateAnalyzedUntil_def exampleEnvironment_def watching_fields truthy_def f
        example_parses example_batch example_connections
        del: parseBatch.simps processBatch.simps)
  show ?thesis
    using h0 r0 h1 r1 h2 r2(2) r3
    by (simp add: watching_fields example_parses del: parseBatch.simps processBatch.simps)
qed

text \<open>
  Claim C5. Over every sequence of events the reconnect counter never exceeds 5; an event
  whose \<open>connect()\<close> succeeds sets it to zero and no other event lowers it; and once it
  has reached the bound, \<open>scheduleReconnection\<close> only logs the exhaustion and no failure
  signal schedules a timeout. When the attempts are exhausted (the counter is 5 and no
  timeout is waiting), no sequence of events without a new call of \<open>startWatching()\<close>
  schedules a timeout again.
\<close>

theorem reconnectAttempts_bounded_and_reset:
  "(reconnectAttempts w \<le> 5 \<longrightarrow> reconnectAttempts (run evs w) \<le> 5)
   \<and> reconnectAttempts (run evs (newWatcher options)) \<le> 5
   \<and> (connectSucceeds ev1 w1 \<longrightarrow> reconnectAttempts (step env1 ev1 w1) = 0)
   \<and> (\<not> connectSucceeds ev2 w2 \<longrightarrow> reconnectAttempts w2 \<le> reconnectAttempts (step env2 ev2 w2))
   \<and> (5 \<le> reconnectAttempts w3 \<longrightarrow> scheduleReconnection r w3 = emit [Log MaxAttemptsReached] w3)
   \<and> (5 \<le> reconnectAttempts w4 \<and> failureSignal ev4 \<longrightarrow>
        timeoutsScheduled (step env4 ev4 w4) = timeoutsScheduled w4
        \<and> timerArmed (step env4 ev4 w4) = timerArmed w4)
   \<and> (reconnectAttempts w5 = 5 \<and> \<not> timerArmed w5
        \<and> list_all (\<lambda>(env, ev). \<not> isStartWatching ev) evs5 \<longrightarrow>
        reconnectAttempts (run evs5 w5) = 5
        \<and> timeoutsScheduled (run evs5 w5) = timeoutsScheduled w5)"
proof -
  have m: "maxReconnectAttempts = 5" by (simp add: maxReconnectAttempts_def)
  have "reconnectAttempts (newWatcher options) \<le> maxReconnectAttempts"
    by (simp add: newWatcher_def)
  then have "reconnectAttempts (run evs (newWatcher options)) \<le> maxReconnectAttempts"
    by (rule run_bound)
  then show ?thesis
    using m run_bound [of w evs] step_reset [of ev1 w1 env1] step_no_reset [of ev2 w2 env2]
      scheduleReconnection_exhausted [of w3 r] failureSignal_exhausted [of w4 ev4 env4]
      exhausted_run [of w5 evs5]
    by simp
qed

text \<open>
  A refused start and five refused reconnect attempts exhaust the counter; a sixth
  failure signal schedules nothing, and a later successful start resets the counter.
\<close>

theorem reconnectAttempts_bounded_and_reset_witness:
  "reconnectAttempts (newWatcher exampleOptions) \<le> 5
   \<and> reconnectAttempts (run fiveFailures (newWatcher exampleOptions)) = 5
   \<and> connectSucceeds (StartWatching (Inr exampleConnection)) (run fiveFailures (newWatcher exampleOptions))
   \<and> reconnectAttempts (step exampleEnvironment (StartWatching (Inr exampleConnection))
        (run fiveFailures (newWatcher exampleOptions))) = 0
   \<and> \<not> connectSucceeds ImapError (run fiveFailures (newWatcher exampleOptions))
   \<and> scheduleReconnection (1 / 2) (run fiveFailures (newWatcher exampleOptions)) =
        emit [Log MaxAttemptsReached] (run fiveFailures (newWatcher exampleOptions))
   \<and> failureSignal ImapError
   \<and> timeoutsScheduled (step exampleEnvironment ImapError (run fiveFailures (newWatcher exampleOptions))) = 5
   \<and> last (trace (run fiveFailures (newWatcher exampleOptions))) = Log MaxAttemptsReached
   \<and> \<not> timerArmed (run fiveFailures (newWatcher exampleOptions))
   \<and> list_all (\<lambda>(env, ev). \<not> isStartWatching ev) sixthSignals
   \<and> timeoutsScheduled (run sixthSignals (run fiveFailures (newWatcher exampleOptions))) = 5"
proof -
  let ?x = "run fiveFailures (newWatcher exampleOptions)"
  have fresh: "reconnectAttempts (newWatcher exampleOptions) \<le> 5"
    by (simp add: newWatcher_def)
  have later: "list_all (\<lambda>(env, ev). \<not> isStartWatching ev) sixthSignals"
    by (simp add: sixthSignals_def)
  show ?thesis
    using fresh later reconnectAttempts_bounded_and_reset [of "newWatcher exampleOptions" fiveFailures
      exampleOptions "StartWatching (Inr exampleConnection)" ?x
      exampleEnvironment ImapError ?x exampleEnvironment ?x "1 / 2"
      ?x ImapError exampleEnvironment ?x sixthSignals]
    by (simp add: exhausted_fields exampleConnection_def)
qed

text \<open>
  Claim C6. For the attempt number \<open>n\<close> from 1 to 5 the scheduled delay is
  \<open>min (1000 * 2 ^ (n - 1) + j) 30000\<close> milliseconds, where the jitter \<open>j\<close> is 1000 times
  the sample \<open>r\<close> of \<open>Math.random()\<close>, so at least 0 and below 1000.
\<close>

theorem reconnect_delay_formula:
  assumes "1 \<le> n" and "n \<le> 5" and "0 \<le> r" and "r < 1"
    and "\<not> isReconnecting w" and "reconnectAttempts w = n - 1"
  shows "trace (scheduleReconnection r w) =
           trace w @ [Log (ReconnectIn \<lfloor>min (1000 * 2 ^ (n - 1) + r * 1000) 30000 / 1000 + 1 / 2\<rfloor> n),
                      SetTimeout (min (1000 * 2 ^ (n - 1) + r * 1000) 30000)]
         \<and> 0 \<le> r * 1000 \<and> r * 1000 < 1000
         \<and> reconnectAttempts (scheduleReconnection r w) = n"
  using assms
  by (simp add: scheduleReconnection_def reconnectDelay_def Let_def maxReconnectAttempts_def
      initialReconnectDelay_def)

text \<open>The third attempt with the sample one half waits 4500 milliseconds.\<close>

theorem reconnect_delay_formula_witness:
  "(1::nat) \<le> 3 \<and> (3::nat) \<le> 5 \<and> (0::real) \<le> 1 / 2 \<and> (1 / 2 :: real) < 1
   \<and> \<not> isReconnecting ((newWatcher exampleOptions)\<lparr>reconnectAttempts := 2\<rparr>)
   \<and> trace (scheduleReconnection (1 / 2) ((newWatcher exampleOptions)\<lparr>reconnectAttempts := 2\<rparr>)) =
        [Log (ReconnectIn 5 3), SetTimeout 4500]"
  using reconnect_delay_formula [of 3 "1 / 2" "(newWatcher exampleOptions)\<lparr>reconnectAttempts := 2\<rparr>"]
  by (simp add: newWatcher_def)

text \<open>
  Claim C7, as amended. The resolver goes through the priority list once: the first
  candidate that some folder matches, exactly or by its trailing segment, decides, and for
  that candidate the exact match is preferred. An exact match is a folder whose lower-case
  path is the candidate; a trailing match is a folder whose lower-case path ends with a
  slash and the candidate. The folder found in this way is the folder \<open>moveMessage\<close> is
  called with, and no folder is created then. When no candidate matches, \<open>Spam\<close> is
  created and used, whatever \<open>addBox\<close> answers. What \<open>moveMessage\<close> throws is thrown
  on; when the folders cannot be listed, nothing is moved.
\<close>

theorem resolver_takes_first_candidate_with_any_match:
  "findTarget cands allBoxes =
     (case find (\<lambda>c. exactMatch allBoxes c \<noteq> None \<or> trailingMatch allBoxes c \<noteq> None) cands of
        None \<Rightarrow> None
      | Some c \<Rightarrow> (case exactMatch allBoxes c of
                     Some exact \<Rightarrow> Some exact
                   | None \<Rightarrow> trailingMatch allBoxes c))
   \<and> (exactMatch allBoxes1 c1 = Some b1 \<longrightarrow>
        b1 \<in> set allBoxes1 \<and> toLowerCase b1 = toLowerCase c1)
   \<and> (trailingMatch allBoxes2 c2 = Some b2 \<longrightarrow>
        b2 \<in> set allBoxes2 \<and> endsWith (toLowerCase b2) (''/'' @ toLowerCase c2))
   \<and> (getBoxes conn = Inr tree \<and> findTarget candidates (flattenBoxes tree []) = None \<longrightarrow>
        fst (moveToSpamFolder conn u) =
          [GetBoxes, AddBox ''Spam'', MoveMessage u ''Spam'',
           Log (case moveMessage conn u ''Spam'' of
                  None \<Rightarrow> Moved u ''Spam'' | Some e \<Rightarrow> MoveFailed u e)]
        \<and> snd (moveToSpamFolder conn u) = moveMessage conn u ''Spam'')
   \<and> (getBoxes conn' = Inr tree'
        \<and> findTarget candidates (flattenBoxes tree' []) = Some target \<longrightarrow>
        moveToSpamFolder conn' u' =
          ([GetBoxes, MoveMessage u' target,
            Log (case moveMessage conn' u' target of
                   None \<Rightarrow> Moved u' target | Some e \<Rightarrow> MoveFailed u' e)],
           moveMessage conn' u' target))
   \<and> (getBoxes conn0 = Inl e0 \<longrightarrow>
        moveToSpamFolder conn0 u0 = ([GetBoxes, Log (MoveFailed u0 e0)], Some e0))"
  using findTarget_first_matching_candidate [of cands allBoxes]
    exactMatch_sound [of allBoxes1 c1 b1] trailingMatch_sound [of allBoxes2 c2 b2]
    moveToSpamFolder_creates [of conn tree u] moveToSpamFolder_created_result [of conn tree u]
    moveToSpamFolder_found [of conn' tree' target u'] moveToSpamFolder_no_boxes [of conn0 e0 u0]
  by blast

text \<open>
  Claim C7 as stated tries the exact match against the whole list before any trailing
  segment. With the folders \<open>INBOX\<close>, \<open>INBOX/Spam\<close> and \<open>Junk\<close> the candidate \<open>junk\<close>
  matches exactly, yet the code takes \<open>INBOX/Spam\<close>, the trailing match of the earlier
  candidate \<open>spam\<close>; the resolver worded as the claim takes \<open>Junk\<close>.
\<close>

theorem resolver_prefers_nested_spam_to_exact_junk:
  "flattenBoxes nestedSpamTree [] = [''INBOX'', ''INBOX/Spam'', ''Junk'']
   \<and> exactMatch (flattenBoxes nestedSpamTree []) ''junk'' = Some ''Junk''
   \<and> findTarget candidates (flattenBoxes nestedSpamTree []) = Some ''INBOX/Spam''
   \<and> findTarget_spec candidates (flattenBoxes nestedSpamTree []) = Some ''Junk''"
  by (simp add: example_trees example_matches candidates_def findTarget_spec_def
      List.map_filter_def)

text \<open>
  On the server whose folders are \<open>INBOX\<close> and \<open>INBOX/Junk\<close>, the folder
  \<open>INBOX/Junk\<close> is found by its trailing segment and the message is moved there; a
  server with no folder that refuses to create \<open>Spam\<close> still gets the move to \<open>Spam\<close>;
  a server that does not list its folders gets no move.
\<close>

theorem resolver_takes_first_candidate_with_any_match_witness:
  "findTarget candidates [''INBOX'', ''INBOX/Junk''] = Some ''INBOX/Junk''
   \<and> exactMatch [''Junk''] ''junk'' = Some ''Junk''
   \<and> ''Junk'' \<in> set [''Junk''] \<and> toLowerCase ''Junk'' = toLowerCase ''junk''
   \<and> trailingMatch [''INBOX'', ''INBOX/Junk''] ''junk'' = Some ''INBOX/Junk''
   \<and> endsWith (toLowerCase ''INBOX/Junk'') (''/'' @ toLowerCase ''junk'')
   \<and> getBoxes emptyBoxesConnection = Inr []
   \<and> findTarget candidates (flattenBoxes [] []) = None
   \<and> addBox emptyBoxesConnection ''Spam'' = Some (Error None)
   \<and> fst (moveToSpamFolder emptyBoxesConnection 7) =
        [GetBoxes, AddBox ''Spam'', MoveMessage 7 ''Spam'', Log (Moved 7 ''Spam'')]
   \<and> getBoxes exampleConnection = Inr nestedJunkTree
   \<and> findTarget candidates (flattenBoxes nestedJunkTree []) = Some ''INBOX/Junk''
   \<and> moveToSpamFolder exampleConnection 7 =
        ([GetBoxes, MoveMessage 7 ''INBOX/Junk'', Log (Moved 7 ''INBOX/Junk'')], None)
   \<and> getBoxes (exampleConnection\<lparr>getBoxes := Inl (Error None)\<rparr>) = Inl (Error None)
   \<and> moveToSpamFolder (exampleConnection\<lparr>getBoxes := Inl (Error None)\<rparr>) 7 =
        ([GetBoxes, Log (MoveFailed 7 (Error None))], Some (Error None))"
proof -
  note resolver = resolver_takes_first_candidate_with_any_match [of candidates
      "[''INBOX'', ''INBOX/Junk'']" "[''Junk'']" "''junk''" "''Junk''"
      "[''INBOX'', ''INBOX/Junk'']" "''junk''" "''INBOX/Junk''" emptyBoxesConnection "[]" 7
      exampleConnection nestedJunkTree "''INBOX/Junk''" 7
      "exampleConnection\<lparr>getBoxes := Inl (Error None)\<rparr>" "Error None" 7]
  have none: "findTarget candidates (flattenBoxes [] []) = None"
    by (simp add: candidates_def example_matches)
  have created: "addBox emptyBoxesConnection ''Spam'' = Some (Error None)"
    by (simp add: emptyBoxesConnection_def)
  have listed: "getBoxes exampleConnection = Inr nestedJunkTree"
    "findTarget candidates (flattenBoxes nestedJunkTree []) = Some ''INBOX/Junk''"
    by (simp_all add: example_connections nestedJunk_target)
  with resolver have moved:
    "moveToSpamFolder exampleConnection 7 =
       ([GetBoxes, MoveMessage 7 ''INBOX/Junk'',
         Log (case moveMessage exampleConnection 7 ''INBOX/Junk'' of
                None \<Rightarrow> Moved 7 ''INBOX/Junk'' | Some e \<Rightarrow> MoveFailed 7 e)],
        moveMessage exampleConnection 7 ''INBOX/Junk'')"
    by blast
  have unlisted: "getBoxes (exampleConnection\<lparr>getBoxes := Inl (Error None)\<rparr>) = Inl (Error None)"
    by simp
  with resolver have refused:
    "moveToSpamFolder (exampleConnection\<lparr>getBoxes := Inl (Error None)\<rparr>) 7 =
       ([GetBoxes, Log (MoveFailed 7 (Error None))], Some (Error None))"
    by blast
  from resolver have "findTarget candidates [''INBOX'', ''INBOX/Junk''] = Some ''INBOX/Junk''"
    by (simp add: candidates_def example_matches)
  moreover from resolver have
    "''Junk'' \<in> set [''Junk''] \<and> toLowerCase ''Junk'' = toLowerCase ''junk''"
    "endsWith (toLowerCase ''INBOX/Junk'') (''/'' @ toLowerCase ''junk'')"
    by (simp_all add: example_matches)
  moreover from resolver none have
    "fst (moveToSpamFolder emptyBoxesConnection 7) =
       [GetBoxes, AddBox ''Spam'', MoveMessage 7 ''Spam'', Log (Moved 7 ''Spam'')]"
    by (simp add: example_connections)
  ultimately show ?thesis
    using none created listed moved refused
    by (simp add: example_matches example_connections)
qed

text \<open>
  Claim C8. In a backfill scan with the lower bound \<open>lb\<close>, a fetched message whose
  timestamp is before \<open>lb\<close> is skipped before it is classified, whatever the search
  returned; the messages classified are exactly the parsed ones whose timestamp is at or
  after \<open>lb\<close>, in the order of the search result.
\<close>

theorem backfill_excludes_older_than_watermark:
  "(connection w = Some c \<and> openBox c = Inr totalMessages \<and> search c (Since lb) = Inr messages \<longrightarrow>
      trace (snd (processHistoricalEmails lb w)) =
        trace w @ [OpenBox, Log (SearchingSince lb), Search (Since lb),
                   Log (FoundMessages (length messages))] @
        concat (map (backfillMessage c (analyzer w) (scamThreshold w) lb) messages))
   \<and> classified (concat (map (backfillMessage c an t lb) messages)) =
       filter (\<lambda>email. lb \<le> date email) (snd (parseBatch messages))
   \<and> (allPart m = Some (Inr parsed) \<and> emailDate m parsed < lb \<longrightarrow>
        backfillMessage c an t lb m =
          [Log (SkippingOlder (emailDate m parsed) (subject (toEmailContent m parsed)))])
   \<and> (allPart m' = Some (Inr parsed') \<and> lb \<le> emailDate m' parsed' \<longrightarrow>
        classified (backfillMessage c an t lb m') = [toEmailContent m' parsed'])"
proof -
  have "allPart m' = Some (Inr parsed') \<and> lb \<le> emailDate m' parsed' \<longrightarrow>
        classified (backfillMessage c an t lb m') = [toEmailContent m' parsed']"
    by (simp add: backfillMessage_classified toEmailContent_def)
  then show ?thesis
    using processHistoricalEmails_trace [of w c totalMessages lb messages]
      backfill_classified [of c an t lb messages] backfillMessage_skip [of m parsed lb c an t]
    by simp
qed

text \<open>A scan from the instant 1000 over a mail of the instant 6000 and one of 500.\<close>

theorem backfill_excludes_older_than_watermark_witness:
  "connection (watching oldMailConnection) = Some oldMailConnection
   \<and> openBox oldMailConnection = Inr 5
   \<and> search oldMailConnection (Since 1000) = Inr [mailTwo, oldMail]
   \<and> classified (trace (snd (processHistoricalEmails 1000 (watching oldMailConnection)))) = [emailTwo]
   \<and> allPart oldMail = Some (Inr (parsedAt 500 ''Old'')) \<and> emailDate oldMail (parsedAt 500 ''Old'') < 1000
   \<and> backfillMessage oldMailConnection exampleAnalyzer 80 1000 oldMail = [Log (SkippingOlder 500 ''Old'')]
   \<and> allPart mailTwo = Some (Inr (parsedAt 6000 ''Two'')) \<and> 1000 \<le> emailDate mailTwo (parsedAt 6000 ''Two'')
   \<and> classified (backfillMessage oldMailConnection exampleAnalyzer 80 1000 mailTwo) = [emailTwo]"
proof -
  have t: "trace (watching oldMailConnection) =
     [Log Connecting, ImapConnect, RegisterHandlers, OpenBox, Log ConnectedInbox, SetInterval,
      Log WatcherActive]"
    and c: "connection (watching oldMailConnection) = Some oldMailConnection"
    by (simp_all add: watching_fields example_connections)
  have s: "subject (toEmailContent oldMail (parsedAt 500 ''Old'')) = ''Old''"
    by (simp add: toEmailContent_def parsedAt_def orElse_def)
  show ?thesis
    using backfill_excludes_older_than_watermark [of "watching oldMailConnection"
        oldMailConnection 5 1000 "[mailTwo, oldMail]" exampleAnalyzer 80
        oldMail "parsedAt 500 ''Old''" mailTwo "parsedAt 6000 ''Two''"]
    by (simp add: t c s example_connections example_mails watching_fields)
qed

text \<open>
  Claim C9. A processed message is handed to \<open>moveToSpamFolder\<close> when the probability the
  classifier returned is at or above the threshold, and is left in place when it is
  below: on a server that lists its folders, a move is issued for the message if and only
  if the probability reaches the threshold, in the backfill loop and in the loop of new
  mail alike.
\<close>

theorem relocation_iff_threshold_reached:
  "(t \<le> scam_probability (isScamEmail an email) \<longrightarrow>
      classifyAndRelocate c an t email =
        ([Log (Analyzing (subject email)), IsScamEmail email,
          Log (ScamDetected (scam_probability (isScamEmail an email)) (subject email))] @
         fst (moveToSpamFolder c (uid email)),
         snd (moveToSpamFolder c (uid email))))
   \<and> (scam_probability (isScamEmail an' email') < t' \<longrightarrow>
      classifyAndRelocate c' an' t' email' =
        ([Log (Analyzing (subject email')), IsScamEmail email', Log (Legitimate (subject email'))],
         None))
   \<and> (getBoxes c1 = Inr tree1 \<longrightarrow>
        (relocated (fst (classifyAndRelocate c1 an1 t1 email1)) = [uid email1])
          = (t1 \<le> scam_probability (isScamEmail an1 email1))
        \<and> relocated (concat (map (backfillMessage c1 an1 t1 lb) messages)) =
            map uid (filter (\<lambda>email. lb \<le> date email
                               \<and> t1 \<le> scam_probability (isScamEmail an1 email))
                       (snd (parseBatch messages))))
   \<and> (snd (processBatch c2 an2 t2 emails) = None \<longrightarrow>
        relocated (fst (processBatch c2 an2 t2 emails)) =
          map uid (filter (\<lambda>email. t2 \<le> scam_probability (isScamEmail an2 email)) emails))"
proof -
  have "getBoxes c1 = Inr tree1 \<longrightarrow>
        (relocated (fst (classifyAndRelocate c1 an1 t1 email1)) = [uid email1])
          = (t1 \<le> scam_probability (isScamEmail an1 email1))"
    by (simp add: classifyAndRelocate_relocated)
  then show ?thesis
    using classifyAndRelocate_above [of t an email c]
      classifyAndRelocate_below [of an' email' t' c']
      backfill_relocated [of c1 tree1 an1 t1 lb messages]
      processBatch_ok [of c2 an2 t2 emails]
    by blast
qed

text \<open>With the threshold 80, the probability 92 relocates and the probability 50 does not.\<close>

theorem relocation_iff_threshold_reached_witness:
  "(80::real) \<le> scam_probability (isScamEmail exampleAnalyzer emailOne)
   \<and> scam_probability (isScamEmail exampleAnalyzer emailOne) = 92
   \<and> classifyAndRelocate exampleConnection exampleAnalyzer 80 emailOne =
        ([Log (Analyzing ''One''), IsScamEmail emailOne, Log (ScamDetected 92 ''One''),
          GetBoxes, MoveMessage 101 ''INBOX/Junk'', Log (Moved 101 ''INBOX/Junk'')], None)
   \<and> scam_probability (isScamEmail (exampleAnalyzer\<lparr>anthropic := (\<lambda>p. Parsed 50)\<rparr>) emailOne) = 50
   \<and> scam_probability (isScamEmail (exampleAnalyzer\<lparr>anthropic := (\<lambda>p. Parsed 50)\<rparr>) emailOne) < 80
   \<and> classifyAndRelocate exampleConnection (exampleAnalyzer\<lparr>anthropic := (\<lambda>p. Parsed 50)\<rparr>) 80 emailOne =
        ([Log (Analyzing ''One''), IsScamEmail emailOne, Log (Legitimate ''One'')], None)
   \<and> getBoxes exampleConnection = Inr nestedJunkTree
   \<and> relocated (fst (classifyAndRelocate exampleConnection exampleAnalyzer 80 emailOne)) = [101]
   \<and> snd (processBatch exampleConnection exampleAnalyzer 80 [emailOne, emailTwo]) = None
   \<and> relocated (fst (processBatch exampleConnection exampleAnalyzer 80 [emailOne, emailTwo])) = [101, 102]"
proof -
  have low: "scam_probability (isScamEmail (exampleAnalyzer\<lparr>anthropic := (\<lambda>p. Parsed 50)\<rparr>) emailOne) = 50"
    by (simp add: isScamEmail_def)
  have ok: "snd (processBatch exampleConnection exampleAnalyzer 80 [emailOne, emailTwo]) = None"
    by (simp add: example_classify)
  show ?thesis
    using relocation_iff_threshold_reached [of 80 exampleAnalyzer emailOne exampleConnection
        "exampleAnalyzer\<lparr>anthropic := (\<lambda>p. Parsed 50)\<rparr>" emailOne 80 exampleConnection
        exampleConnection nestedJunkTree exampleAnalyzer 80 emailOne 1000 "[mailTwo, oldMail]"
        exampleConnection exampleAnalyzer 80 "[emailOne, emailTwo]"]
    by (simp add: low example_scores example_mails example_connections example_classify
        example_moves classifyAndRelocate_below)
qed

end
